theory Spec2Isabelle
  imports Main "HOL-Library.Multiset"
begin

section \<open>Data model (src/api/models.py, src/api/schemas.py)\<close>

text \<open>
  The three enumerations of \<^verbatim>\<open>models.py\<close>. Every member is a non-empty string in
  Python, hence truthy: the tests \<^verbatim>\<open>if domain:\<close> and \<^verbatim>\<open>if note_type:\<close> of the
  handlers only distinguish a given value from \<^verbatim>\<open>None\<close>.
\<close>

datatype NoteType = IDEA | QUESTION | DEFINITION

datatype Domain = PHYSICS | SECURITY | PHILOSOPHY | PERSONAL | OTHER

datatype RelationType = SUPPORTS | CONTRADICTS | EXTENDS | REFERENCES

text \<open>
  The tables. Field names carry the prefix of their table, since the three tables share
  the column names \<^verbatim>\<open>id\<close> and \<^verbatim>\<open>created_at\<close>. Time stamps are natural numbers
  (ticks of the clock that produced them). \<^verbatim>\<open>Note.updated_at\<close> has no default and is
  NULL until the first update. \<^verbatim>\<open>Link.from_id\<close> and \<^verbatim>\<open>Link.to_id\<close> are nullable
  foreign keys.
\<close>

record Note =
  n_id :: string
  n_title :: string
  n_content :: string
  n_note_type :: NoteType
  n_domain :: Domain
  n_created_at :: nat
  n_updated_at :: "nat option"

record NoteVersion =
  v_id :: string
  v_note_id :: string
  v_old_content :: string
  v_change_reason :: string
  v_changed_at :: nat

record Link =
  l_id :: string
  l_from_id :: "string option"
  l_to_id :: "string option"
  l_relation :: RelationType
  l_created_at :: nat

text \<open>The request bodies of \<^verbatim>\<open>schemas.py\<close>.\<close>

record NoteCreate =
  c_title :: string
  c_content :: string
  c_note_type :: NoteType
  c_domain :: Domain

record NoteUpdate =
  u_title :: "string option"
  u_content :: "string option"
  u_note_type :: "NoteType option"
  u_domain :: "Domain option"
  u_change_reason :: string

record LinkCreate =
  lc_from_id :: string
  lc_to_id :: string
  lc_relation :: RelationType

text \<open>
  The database behind the session \<^verbatim>\<open>db\<close>: one list of rows per table, in insertion
  order. The fields are named after the tables, with the prefix \<^verbatim>\<open>tbl_\<close>.
\<close>

record store =
  tbl_notes :: "Note list"
  tbl_note_versions :: "NoteVersion list"
  tbl_links :: "Link list"

text \<open>
  What a handler can raise. \<^verbatim>\<open>HTTPException\<close> carries its status code and detail;
  for the status 500 raised by the \<^verbatim>\<open>except\<close> blocks the detail is the fixed
  prefix of the message (the text of the database exception that follows it is not
  modelled). \<^verbatim>\<open>AttributeError\<close> carries the attribute that was not found.
  \<^verbatim>\<open>DBAPIError\<close> is an exception the database driver raises when it executes a
  statement, which no handler catches.
\<close>

datatype error = HTTPException nat string | AttributeError string | DBAPIError

text \<open>
  The two exception handlers at the end of \<^verbatim>\<open>main.py\<close>: an \<^verbatim>\<open>HTTPException\<close>
  is answered with its own status code, every other exception with 500.
\<close>

fun status_code :: "error \<Rightarrow> nat" where
  "status_code (HTTPException c d) = c"
| "status_code (AttributeError a) = 500"
| "status_code DBAPIError = 500"

section \<open>Strings\<close>

text \<open>
  A character is a code point below 256. \<^verbatim>\<open>str.isspace\<close> holds there for the code
  points 9 to 13, 28 to 32, 133 and 160, and \<^verbatim>\<open>str.strip()\<close> removes the characters
  for which it holds from both ends.
\<close>

definition isspace :: "char \<Rightarrow> bool" where
  "isspace c = (of_char c \<in> {9, 10, 11, 12, 13, 28, 29, 30, 31, 32, 133, 160 :: nat})"

definition strip :: "string \<Rightarrow> string" where
  "strip s = rev (dropWhile isspace (rev (dropWhile isspace s)))"

section \<open>Queries\<close>

text \<open>\<^verbatim>\<open>db.query(Note).filter(Note.id == note_id).first()\<close>\<close>

definition query_note :: "store \<Rightarrow> string \<Rightarrow> Note option" where
  "query_note s note_id = find (\<lambda>n. n_id n = note_id) (tbl_notes s)"

text \<open>
  \<^verbatim>\<open>order_by(column.desc())\<close>: the rows sorted by the one column, largest first. The
  statement names no second key, and rows with equal keys come out in the order of the
  table, the order of their insertion: the sort is stable.
\<close>

definition order_by_desc :: "('a \<Rightarrow> nat) \<Rightarrow> 'a list \<Rightarrow> 'a list" where
  "order_by_desc k xs = sort_key (\<lambda>x. - int (k x)) xs"

section \<open>Note endpoints (src/api/main.py)\<close>

text \<open>
  Every handler takes the store and returns its result together with the store it
  leaves behind. The values the environment supplies are arguments: \<^verbatim>\<open>uuid\<close> is the
  result of \<^verbatim>\<open>str(uuid.uuid4())\<close>, \<^verbatim>\<open>now\<close> the database's \<^verbatim>\<open>func.now()\<close> and
  \<^verbatim>\<open>utcnow\<close> the result of \<^verbatim>\<open>datetime.utcnow()\<close>. An INSERT whose primary key is
  already in its table fails in \<^verbatim>\<open>db.commit()\<close>; the \<^verbatim>\<open>except\<close> block rolls the
  transaction back and raises status 500.
\<close>

text \<open>
  \<^verbatim>\<open>create_note\<close> commits the note first and the initial version in a second
  transaction, so a failure of the second leaves the note in place.
\<close>

definition create_note ::
  "NoteCreate \<Rightarrow> string \<Rightarrow> nat \<Rightarrow> string \<Rightarrow> nat \<Rightarrow> store \<Rightarrow> (error + Note) \<times> store" where
  "create_note note uuid now uuid2 now2 s =
     (if uuid \<in> set (map n_id (tbl_notes s))
      then (Inl (HTTPException 500 ''Failed to create note: ''), s)
      else
        let db_note = \<lparr>n_id = uuid, n_title = strip (c_title note),
                       n_content = strip (c_content note),
                       n_note_type = c_note_type note, n_domain = c_domain note,
                       n_created_at = now, n_updated_at = None\<rparr>;
            s1 = s\<lparr>tbl_notes := tbl_notes s @ [db_note]\<rparr>
        in if uuid2 \<in> set (map v_id (tbl_note_versions s1))
           then (Inl (HTTPException 500 ''Failed to create note: ''), s1)
           else
             let version = \<lparr>v_id = uuid2, v_note_id = n_id db_note, v_old_content = [],
                            v_change_reason = ''Initial creation'', v_changed_at = now2\<rparr>
             in (Inr db_note, s1\<lparr>tbl_note_versions := tbl_note_versions s1 @ [version]\<rparr>))"

definition update_note ::
  "string \<Rightarrow> NoteUpdate \<Rightarrow> string \<Rightarrow> nat \<Rightarrow> nat \<Rightarrow> store \<Rightarrow> (error + Note) \<times> store" where
  "update_note note_id update_data uuid now utcnow s =
     (case query_note s note_id of
        None \<Rightarrow> (Inl (HTTPException 404 (''Note with ID '' @ note_id @ '' not found'')), s)
      | Some note \<Rightarrow>
          if u_change_reason update_data = [] \<or> strip (u_change_reason update_data) = []
          then (Inl (HTTPException 400 ''Change reason is required for updates''), s)
          else if uuid \<in> set (map v_id (tbl_note_versions s))
          then (Inl (HTTPException 500 ''Failed to update note: ''), s)
          else
            let version = \<lparr>v_id = uuid, v_note_id = note_id, v_old_content = n_content note,
                           v_change_reason = strip (u_change_reason update_data),
                           v_changed_at = now\<rparr>;
                note1 = (case u_title update_data of
                           None \<Rightarrow> note | Some t \<Rightarrow> note\<lparr>n_title := strip t\<rparr>);
                note2 = (case u_content update_data of
                           None \<Rightarrow> note1 | Some c \<Rightarrow> note1\<lparr>n_content := strip c\<rparr>);
                note3 = (case u_note_type update_data of
                           None \<Rightarrow> note2 | Some ty \<Rightarrow> note2\<lparr>n_note_type := ty\<rparr>);
                note4 = (case u_domain update_data of
                           None \<Rightarrow> note3 | Some d \<Rightarrow> note3\<lparr>n_domain := d\<rparr>);
                note5 = note4\<lparr>n_updated_at := Some utcnow\<rparr>
            in (Inr note5,
                s\<lparr>tbl_notes := map (\<lambda>n. if n_id n = note_id then note5 else n) (tbl_notes s),
                  tbl_note_versions := tbl_note_versions s @ [version]\<rparr>))"

text \<open>
  \<^verbatim>\<open>get_note_versions\<close>. The branch for a missing note evaluates
  \<^verbatim>\<open>status.HTP_404_NOT_FOUND\<close>, an attribute the module \<^verbatim>\<open>status\<close> does not have, so
  the construction of the \<^verbatim>\<open>HTTPException\<close> raises \<^verbatim>\<open>AttributeError\<close> instead.
  The response model keeps the columns id, old_content, change_reason and changed_at of
  each row; the rows themselves are returned here.
\<close>

definition get_note_versions :: "string \<Rightarrow> store \<Rightarrow> error + NoteVersion list" where
  "get_note_versions note_id s =
     (case query_note s note_id of
        None \<Rightarrow> Inl (AttributeError ''HTP_404_NOT_FOUND'')
      | Some note \<Rightarrow>
          Inr (order_by_desc v_changed_at
                 (filter (\<lambda>v. v_note_id v = note_id) (tbl_note_versions s))))"

text \<open>
  \<^verbatim>\<open>get_note\<close> returns the note with its versions (newest first), its outgoing links
  and its incoming links.
\<close>

definition get_note ::
  "string \<Rightarrow> store \<Rightarrow> error + (Note \<times> NoteVersion list \<times> Link list \<times> Link list)" where
  "get_note note_id s =
     (case query_note s note_id of
        None \<Rightarrow> Inl (HTTPException 404 (''Note with ID '' @ note_id @ '' not found''))
      | Some note \<Rightarrow>
          let versions = order_by_desc v_changed_at
                           (filter (\<lambda>v. v_note_id v = note_id) (tbl_note_versions s));
              outgoing = filter (\<lambda>l. l_from_id l = Some note_id) (tbl_links s);
              incoming = filter (\<lambda>l. l_to_id l = Some note_id) (tbl_links s)
          in Inr (note, versions, outgoing, incoming))"

text \<open>
  \<^verbatim>\<open>db.delete(note)\<close> followed by \<^verbatim>\<open>db.commit()\<close>, as \<^verbatim>\<open>models.py\<close> configures the
  relationships of \<^verbatim>\<open>Note\<close>. The relationship \<^verbatim>\<open>versions\<close> is declared with
  \<^verbatim>\<open>cascade="all, delete-orphan"\<close>, so the session deletes the versions of the note.
  The relationships \<^verbatim>\<open>outgoing_links\<close> and \<^verbatim>\<open>incoming_links\<close> declare no cascade
  (and no \<^verbatim>\<open>passive_deletes\<close>): for such a relationship the session keeps the child
  rows and sets the foreign key that pointed to the deleted parent to NULL, before it
  deletes the parent. No row references the note any more when it is deleted, so the
  \<^verbatim>\<open>ondelete="CASCADE"\<close> of the foreign-key columns has nothing to act on.
\<close>

definition db_delete_note :: "string \<Rightarrow> store \<Rightarrow> store" where
  "db_delete_note note_id s =
     \<lparr>tbl_notes = filter (\<lambda>n. n_id n \<noteq> note_id) (tbl_notes s),
      tbl_note_versions = filter (\<lambda>v. v_note_id v \<noteq> note_id) (tbl_note_versions s),
      tbl_links = map (\<lambda>l. l\<lparr>l_from_id := (if l_from_id l = Some note_id then None
                                              else l_from_id l),
                              l_to_id := (if l_to_id l = Some note_id then None
                                          else l_to_id l)\<rparr>) (tbl_links s)\<rparr>"

text \<open>
  \<^verbatim>\<open>delete_note\<close>. The confirmation it returns holds a fixed message, the identifier
  and a time stamp; the identifier stands for it here.
\<close>

definition delete_note :: "string \<Rightarrow> store \<Rightarrow> (error + string) \<times> store" where
  "delete_note note_id s =
     (case query_note s note_id of
        None \<Rightarrow> (Inl (HTTPException 404 (''Note with ID '' @ note_id @ '' not found'')), s)
      | Some note \<Rightarrow> (Inr note_id, db_delete_note note_id s))"

text \<open>
  The paging of \<^verbatim>\<open>get_all_notes\<close>: \<^verbatim>\<open>.offset(skip).limit(limit)\<close>. The handler
  declares \<^verbatim>\<open>skip\<close> and \<^verbatim>\<open>limit\<close> as \<^verbatim>\<open>int\<close>, which is unbounded, and passes
  both to the database as they are. The driver binds them as 64-bit signed integers: a
  value outside that range raises an exception when the statement is executed. What a
  database does with a negative OFFSET or LIMIT depends on the engine, which
  \<^verbatim>\<open>database.py\<close> (not part of the sources at hand) selects; it is a parameter here.
  An engine either rejects the statement (PostgreSQL), which raises an exception of the
  driver in \<^verbatim>\<open>.all()\<close>, or reads a negative OFFSET as 0 and a negative LIMIT as no
  limit (SQLite).
\<close>

datatype engine = RejectsNegative | IgnoresNegative

definition int64_range :: "int \<Rightarrow> bool" where
  "int64_range n = (- (2 ^ 63) \<le> n \<and> n < 2 ^ 63)"

definition offset_limit :: "engine \<Rightarrow> int \<Rightarrow> int \<Rightarrow> 'a list \<Rightarrow> error + 'a list" where
  "offset_limit e skip limit xs =
     (if \<not> int64_range skip \<or> \<not> int64_range limit then Inl DBAPIError
      else if (skip < 0 \<or> limit < 0) \<and> e = RejectsNegative then Inl DBAPIError
      else Inr ((if limit < 0 then (\<lambda>ys. ys) else take (nat limit)) (drop (nat skip) xs)))"

definition get_all_notes ::
  "engine \<Rightarrow> int \<Rightarrow> int \<Rightarrow> Domain option \<Rightarrow> NoteType option \<Rightarrow> store \<Rightarrow> error + Note list" where
  "get_all_notes e skip limit domain note_type s =
     (let q0 = tbl_notes s;
          q1 = (case domain of None \<Rightarrow> q0 | Some d \<Rightarrow> filter (\<lambda>n. n_domain n = d) q0);
          q2 = (case note_type of None \<Rightarrow> q1 | Some t \<Rightarrow> filter (\<lambda>n. n_note_type n = t) q1)
      in offset_limit e skip limit (order_by_desc n_created_at q2))"

text \<open>
  A sequence of calls of \<^verbatim>\<open>update_note\<close> on one note: each call with its request body
  and the values the environment supplies to it. \<^verbatim>\<open>update_trace\<close> runs the calls in
  order and returns the stores it passes through, the given one first and the final one
  last, provided every call succeeds (\<^verbatim>\<open>None\<close> when one fails).
\<close>

record update_call =
  uc_data :: NoteUpdate
  uc_uuid :: string
  uc_now :: nat
  uc_utcnow :: nat

fun update_trace :: "string \<Rightarrow> update_call list \<Rightarrow> store \<Rightarrow> store list option" where
  "update_trace note_id [] s = Some [s]"
| "update_trace note_id (c # calls) s =
     (case update_note note_id (uc_data c) (uc_uuid c) (uc_now c) (uc_utcnow c) s of
        (Inr note, s1) \<Rightarrow> map_option (\<lambda>ss. s # ss) (update_trace note_id calls s1)
      | (Inl e, s1) \<Rightarrow> None)"

text \<open>
  What \<^verbatim>\<open>get_note_versions\<close> returns after such a sequence of calls.
\<close>

definition versions_after ::
  "string \<Rightarrow> update_call list \<Rightarrow> store \<Rightarrow> (error + NoteVersion list) option" where
  "versions_after note_id calls s =
     (case update_trace note_id calls s of
        None \<Rightarrow> None
      | Some ss \<Rightarrow> Some (get_note_versions note_id (last ss)))"

section \<open>Link endpoints (src/api/main.py)\<close>

definition create_link ::
  "LinkCreate \<Rightarrow> string \<Rightarrow> nat \<Rightarrow> store \<Rightarrow> (error + Link) \<times> store" where
  "create_link link uuid now s =
     (let from_note = query_note s (lc_from_id link);
          to_note = query_note s (lc_to_id link)
      in if from_note = None
         then (Inl (HTTPException 404
                 (''Source note with ID '' @ lc_from_id link @ '' not found'')), s)
         else if to_note = None
         then (Inl (HTTPException 404
                 (''Target note with ID '' @ lc_to_id link @ '' not found'')), s)
         else if lc_from_id link = lc_to_id link
         then (Inl (HTTPException 400 ''Cannot link a note to itself''), s)
         else if find (\<lambda>l. l_from_id l = Some (lc_from_id link)
                           \<and> l_to_id l = Some (lc_to_id link)) (tbl_links s) \<noteq> None
         then (Inl (HTTPException 400 ''Link already exists between these notes''), s)
         else if uuid \<in> set (map l_id (tbl_links s))
         then (Inl (HTTPException 500 ''Failed to create link: ''), s)
         else
           let db_link = \<lparr>l_id = uuid, l_from_id = Some (lc_from_id link),
                          l_to_id = Some (lc_to_id link), l_relation = lc_relation link,
                          l_created_at = now\<rparr>
           in (Inr db_link, s\<lparr>tbl_links := tbl_links s @ [db_link]\<rparr>))"

section \<open>Graph endpoint over the store (src/api/main.py)\<close>

record GraphNode =
  gn_id :: string
  gn_title :: string
  gn_note_type :: NoteType
  gn_domain :: Domain

record GraphEdge =
  ge_id :: string
  ge_source :: string
  ge_target :: string
  ge_relation :: RelationType

record GraphResponse =
  gr_nodes :: "GraphNode list"
  gr_edges :: "GraphEdge list"

text \<open>
  \<^verbatim>\<open>column.in_(note_ids)\<close>: a NULL column is in no list.
\<close>

definition col_in :: "string option \<Rightarrow> string list \<Rightarrow> bool" where
  "col_in c ids = (case c of None \<Rightarrow> False | Some i \<Rightarrow> i \<in> set ids)"

text \<open>
  The comprehension that builds the edges reads \<^verbatim>\<open>from_id\<close> and \<^verbatim>\<open>to_id\<close> of links
  that passed both \<^verbatim>\<open>in_\<close> filters, which are not NULL.
\<close>

definition graph_edge :: "Link \<Rightarrow> GraphEdge" where
  "graph_edge link = \<lparr>ge_id = l_id link, ge_source = the (l_from_id link),
                       ge_target = the (l_to_id link), ge_relation = l_relation link\<rparr>"

definition graph_node :: "Note \<Rightarrow> GraphNode" where
  "graph_node note = \<lparr>gn_id = n_id note, gn_title = n_title note,
                       gn_note_type = n_note_type note, gn_domain = n_domain note\<rparr>"

definition get_graph_data :: "Domain option \<Rightarrow> store \<Rightarrow> GraphResponse" where
  "get_graph_data domain s =
     (let notes0 = (case domain of None \<Rightarrow> tbl_notes s
                    | Some d \<Rightarrow> filter (\<lambda>n. n_domain n = d) (tbl_notes s));
          note_ids = map n_id notes0;
          links0 = filter (\<lambda>l. col_in (l_from_id l) note_ids \<and> col_in (l_to_id l) note_ids)
                     (tbl_links s)
      in \<lparr>gr_nodes = map graph_node notes0, gr_edges = map graph_edge links0\<rparr>)"

section \<open>Stateless graph endpoint (src/api/graph.py)\<close>

text \<open>
  What \<^verbatim>\<open>json.loads\<close> returns: \<^verbatim>\<open>None\<close>, a bool, a number, a string, a list or a
  dict. The code below never reads the value of a number, only its type and whether it
  is zero. A dict is the list of its items; \<^verbatim>\<open>dict.get\<close> looks a key up in it.
\<close>

datatype json =
  JNull | JBool bool | JNum int | JStr string | JArr "json list" | JObj "(string \<times> json) list"

fun truthy :: "json \<Rightarrow> bool" where
  "truthy JNull = False"
| "truthy (JBool b) = b"
| "truthy (JNum n) = (n \<noteq> 0)"
| "truthy (JStr s) = (s \<noteq> [])"
| "truthy (JArr xs) = (xs \<noteq> [])"
| "truthy (JObj kvs) = (kvs \<noteq> [])"

fun isinstance_str :: "json \<Rightarrow> bool" where
  "isinstance_str (JStr s) = True"
| "isinstance_str _ = False"

definition dict_get :: "(string \<times> json) list \<Rightarrow> string \<Rightarrow> json \<Rightarrow> json" where
  "dict_get d k dflt = (case map_of d k of None \<Rightarrow> dflt | Some v \<Rightarrow> v)"

text \<open>
  The dicts of the result: a node \<^verbatim>\<open>{"id", "title", "domain"}\<close> and an edge
  \<^verbatim>\<open>{"source", "target"}\<close>. Their values are the JSON values the code puts there.
\<close>

record node =
  nd_id :: json
  nd_title :: json
  nd_domain :: json

record edge =
  e_source :: json
  e_target :: json

record graph =
  g_nodes :: "node list"
  g_edges :: "edge list"

text \<open>
  The first loop of \<^verbatim>\<open>_build_graph_from_notes\<close>, with \<^verbatim>\<open>nodes\<close> and
  \<^verbatim>\<open>seen_ids\<close> as accumulators. \<^verbatim>\<open>note.get\<close> exists only when \<^verbatim>\<open>note\<close> is a
  dict; on any other value the attribute lookup raises \<^verbatim>\<open>AttributeError\<close>.
\<close>

fun build_nodes :: "json list \<Rightarrow> node list \<Rightarrow> json set \<Rightarrow> error + node list" where
  "build_nodes [] nodes seen_ids = Inr nodes"
| "build_nodes (JObj note # rest) nodes seen_ids =
     (let node_id = dict_get note ''id'' JNull
      in if \<not> truthy node_id \<or> \<not> isinstance_str node_id
         then build_nodes rest nodes seen_ids
         else if node_id \<in> seen_ids
         then build_nodes rest nodes seen_ids
         else build_nodes rest
                (nodes @ [\<lparr>nd_id = node_id, nd_title = dict_get note ''title'' node_id,
                            nd_domain = dict_get note ''domain'' (JStr ''default'')\<rparr>])
                (insert node_id seen_ids))"
| "build_nodes (_ # rest) nodes seen_ids = Inl (AttributeError ''get'')"

text \<open>The inner loop over \<^verbatim>\<open>links\<close>.\<close>

fun append_edges :: "json \<Rightarrow> json list \<Rightarrow> edge list \<Rightarrow> edge list" where
  "append_edges source_id [] edges = edges"
| "append_edges source_id (target_id # rest) edges =
     (if \<not> isinstance_str target_id
      then append_edges source_id rest edges
      else append_edges source_id rest
             (edges @ [\<lparr>e_source = source_id, e_target = target_id\<rparr>]))"

text \<open>The second loop.\<close>

fun build_edges :: "json list \<Rightarrow> edge list \<Rightarrow> error + edge list" where
  "build_edges [] edges = Inr edges"
| "build_edges (JObj note # rest) edges =
     (let source_id = dict_get note ''id'' JNull
      in if \<not> truthy source_id \<or> \<not> isinstance_str source_id
         then build_edges rest edges
         else (case dict_get note ''links'' (JArr []) of
                 JArr links \<Rightarrow> build_edges rest (append_edges source_id links edges)
               | _ \<Rightarrow> build_edges rest edges))"
| "build_edges (_ # rest) edges = Inl (AttributeError ''get'')"

text \<open>
  \<^verbatim>\<open>_build_graph_from_notes\<close> (an Isabelle name cannot start with an underscore).
\<close>

definition build_graph_from_notes :: "json list \<Rightarrow> error + graph" where
  "build_graph_from_notes notes0 =
     (case build_nodes notes0 [] {} of
        Inl e \<Rightarrow> Inl e
      | Inr nodes \<Rightarrow>
          (case build_edges notes0 [] of
             Inl e \<Rightarrow> Inl e
           | Inr edges \<Rightarrow> Inr \<lparr>g_nodes = nodes, g_edges = edges\<rparr>))"

text \<open>
  Two notions the statements about \<^verbatim>\<open>_build_graph_from_notes\<close> use. \<^verbatim>\<open>has_id v j\<close>:
  the entry \<^verbatim>\<open>j\<close> is an object whose \<^verbatim>\<open>id\<close> is \<^verbatim>\<open>v\<close>; the first entry of a
  collection that has a given identifier is found with it. \<^verbatim>\<open>declared_edges j\<close>: the
  edges an entry declares, one for each string in the list under its key \<^verbatim>\<open>links\<close>,
  when its \<^verbatim>\<open>id\<close> is a non-empty string; none otherwise.
\<close>

fun has_id :: "json \<Rightarrow> json \<Rightarrow> bool" where
  "has_id v (JObj d) = (map_of d ''id'' = Some v)"
| "has_id v _ = False"

fun declared_edges :: "json \<Rightarrow> edge list" where
  "declared_edges (JObj d) =
     (case map_of d ''id'' of
        Some (JStr i) \<Rightarrow>
          (if i = [] then []
           else (case map_of d ''links'' of
                   Some (JArr ls) \<Rightarrow>
                     map (\<lambda>t. \<lparr>e_source = JStr i, e_target = t\<rparr>) (filter isinstance_str ls)
                 | _ \<Rightarrow> []))
      | _ \<Rightarrow> [])"
| "declared_edges _ = []"

text \<open>
  A node that is right for a collection: its identifier is a non-empty string, and its
  title and domain are those of the first entry with that identifier, or the identifier
  and \<^verbatim>\<open>"default"\<close> where that entry has none.
\<close>

definition node_ok :: "json list \<Rightarrow> node \<Rightarrow> bool" where
  "node_ok ns n \<longleftrightarrow>
     (\<exists>i d. nd_id n = JStr i \<and> i \<noteq> [] \<and> find (has_id (JStr i)) ns = Some (JObj d)
        \<and> nd_title n = (case map_of d ''title'' of None \<Rightarrow> JStr i | Some t \<Rightarrow> t)
        \<and> nd_domain n = (case map_of d ''domain'' of None \<Rightarrow> JStr ''default'' | Some v \<Rightarrow> v))"

section \<open>Example data\<close>

text \<open>
  A store with a note \<^verbatim>\<open>x\<close> in the domain physics, a note \<^verbatim>\<open>y\<close> in another domain,
  the version each of them got at its creation, and one link from \<^verbatim>\<open>x\<close> to \<^verbatim>\<open>y\<close>.
\<close>

definition note_x :: Note where
  "note_x = \<lparr>n_id = ''x'', n_title = ''X'', n_content = ''c0'', n_note_type = IDEA,
             n_domain = PHYSICS, n_created_at = 1, n_updated_at = None\<rparr>"

definition note_y :: Note where
  "note_y = \<lparr>n_id = ''y'', n_title = ''Y'', n_content = ''d0'', n_note_type = QUESTION,
             n_domain = OTHER, n_created_at = 2, n_updated_at = None\<rparr>"

definition link_xy :: Link where
  "link_xy = \<lparr>l_id = ''l1'', l_from_id = Some ''x'', l_to_id = Some ''y'',
              l_relation = REFERENCES, l_created_at = 3\<rparr>"

definition store_xy :: store where
  "store_xy =
     \<lparr>tbl_notes = [note_x, note_y],
      tbl_note_versions =
        [\<lparr>v_id = ''vx'', v_note_id = ''x'', v_old_content = [],
          v_change_reason = ''Initial creation'', v_changed_at = 1\<rparr>,
         \<lparr>v_id = ''vy'', v_note_id = ''y'', v_old_content = [],
          v_change_reason = ''Initial creation'', v_changed_at = 2\<rparr>],
      tbl_links = [link_xy]\<rparr>"

text \<open>
  The collection of the specification's example, and one where both entries with the
  same identifier declare a link.
\<close>

definition example_notes :: "json list" where
  "example_notes =
     [JObj [(''id'', JStr ''a''), (''title'', JStr ''A''), (''links'', JArr [JStr ''b''])],
      JObj [(''id'', JStr ''a''), (''title'', JStr ''A2''), (''links'', JArr [])]]"

definition duplicate_notes :: "json list" where
  "duplicate_notes =
     [JObj [(''id'', JStr ''a''), (''links'', JArr [JStr ''b''])],
      JObj [(''id'', JStr ''a''), (''links'', JArr [JStr ''c'', JNum 5])]]"

text \<open>
  The store after one \<^verbatim>\<open>create_note\<close> on the empty store, and two updates of that
  note: the first changes its content, the second only its title.
\<close>

definition empty_store :: store where
  "empty_store = \<lparr>tbl_notes = [], tbl_note_versions = [], tbl_links = []\<rparr>"

definition created_store :: store where
  "created_store =
     snd (create_note \<lparr>c_title = ''T'', c_content = ''c0'', c_note_type = IDEA,
                       c_domain = OTHER\<rparr> ''n1'' 1 ''v0'' 1 empty_store)"

definition example_calls :: "update_call list" where
  "example_calls =
     [\<lparr>uc_data = \<lparr>u_title = None, u_content = Some '' c1 '', u_note_type = None,
                   u_domain = None, u_change_reason = ''first''\<rparr>,
       uc_uuid = ''v1'', uc_now = 5, uc_utcnow = 5\<rparr>,
      \<lparr>uc_data = \<lparr>u_title = Some ''T2'', u_content = None, u_note_type = None,
                   u_domain = None, u_change_reason = ''second''\<rparr>,
       uc_uuid = ''v2'', uc_now = 6, uc_utcnow = 7\<rparr>]"

text \<open>
  Two updates of that note that the database stamps with the same time.
\<close>

definition tied_calls :: "update_call list" where
  "tied_calls =
     [\<lparr>uc_data = \<lparr>u_title = None, u_content = Some ''c1'', u_note_type = None,
                   u_domain = None, u_change_reason = ''first''\<rparr>,
       uc_uuid = ''v1'', uc_now = 5, uc_utcnow = 5\<rparr>,
      \<lparr>uc_data = \<lparr>u_title = None, u_content = Some ''c2'', u_note_type = None,
                   u_domain = None, u_change_reason = ''second''\<rparr>,
       uc_uuid = ''v2'', uc_now = 5, uc_utcnow = 6\<rparr>]"

section \<open>Helper lemmas\<close>

lemmas example_defs = note_x_def note_y_def link_xy_def store_xy_def

lemma created_store_eq:
  "created_store =
      \<lparr>tbl_notes = [\<lparr>n_id = ''n1'', n_title = ''T'', n_content = ''c0'', n_note_type = IDEA,
                     n_domain = OTHER, n_created_at = 1, n_updated_at = None\<rparr>],
       tbl_note_versions = [\<lparr>v_id = ''v0'', v_note_id = ''n1'', v_old_content = [],
                             v_change_reason = ''Initial creation'', v_changed_at = 1\<rparr>],
       tbl_links = []\<rparr>"
  by (simp add: created_store_def empty_store_def create_note_def strip_def isspace_def
        Let_def)

lemma strip_eq_Nil_iff: "strip s = [] \<longleftrightarrow> (\<forall>c\<in>set s. isspace c)"
proof -
  have "strip s = [] \<longleftrightarrow> dropWhile isspace (rev (dropWhile isspace s)) = []"
    by (simp add: strip_def)
  also have "\<dots> \<longleftrightarrow> (\<forall>c\<in>set (dropWhile isspace s). isspace c)"
    by (simp add: dropWhile_eq_Nil_conv)
  also have "\<dots> \<longleftrightarrow> (\<forall>c\<in>set s. isspace c)"
  proof
    assume a: "\<forall>c\<in>set (dropWhile isspace s). isspace c"
    show "\<forall>c\<in>set s. isspace c"
    proof (cases "dropWhile isspace s")
      case Nil
      then show ?thesis by (simp add: dropWhile_eq_Nil_conv)
    next
      case (Cons c cs)
      then have "\<not> isspace c" using hd_dropWhile [of isspace s] by simp
      moreover have "c \<in> set (dropWhile isspace s)" using Cons by simp
      ultimately show ?thesis using a by blast
    qed
  next
    assume "\<forall>c\<in>set s. isspace c"
    then show "\<forall>c\<in>set (dropWhile isspace s). isspace c"
      using set_dropWhileD by fastforce
  qed
  finally show ?thesis .
qed

lemma order_by_desc_sorted:
  "sorted_wrt (\<lambda>a b. k b \<le> k a) (order_by_desc k xs)"
proof -
  have "sorted (map (\<lambda>x. - int (k x)) (sort_key (\<lambda>x. - int (k x)) xs))" by simp
  then have "sorted_wrt (\<lambda>a b. - int (k a) \<le> - int (k b)) (order_by_desc k xs)"
    by (simp add: sorted_map order_by_desc_def)
  then show ?thesis by simp
qed

lemma order_by_desc_mset: "mset (order_by_desc k xs) = mset xs"
  by (simp add: order_by_desc_def)

lemma order_by_desc_length: "length (order_by_desc k xs) = length xs"
  by (simp add: order_by_desc_def)

lemma order_by_desc_stable:
  "filter (\<lambda>x. k x = t) (order_by_desc k xs) = filter (\<lambda>x. k x = t) xs"
proof -
  have "filter (\<lambda>x. - int (k x) = - int t) (sort_key (\<lambda>x. - int (k x)) xs)
          = filter (\<lambda>x. - int (k x) = - int t) xs"
    by (rule sort_key_stable)
  then show ?thesis by (simp add: order_by_desc_def)
qed

lemma order_by_desc_filter:
  "filter P (order_by_desc k xs) = order_by_desc k (filter P xs)"
  by (simp add: order_by_desc_def filter_sort)

lemma insort_key_largest:
  "\<forall>y\<in>set ys. f y < f x \<Longrightarrow> insort_key f x ys = ys @ [x]"
  by (induction ys) auto

lemma order_by_desc_increasing:
  "sorted_wrt (<) (map k xs) \<Longrightarrow> order_by_desc k xs = rev xs"
proof (induction xs)
  case Nil
  then show ?case by (simp add: order_by_desc_def)
next
  case (Cons x xs)
  then have ih: "sort_key (\<lambda>x. - int (k x)) xs = rev xs"
    by (simp add: order_by_desc_def)
  have "\<forall>y\<in>set (rev xs). - int (k y) < - int (k x)"
    using Cons.prems by auto
  then have "insort_key (\<lambda>x. - int (k x)) x (rev xs) = rev xs @ [x]"
    by (rule insort_key_largest)
  then show ?case by (simp add: order_by_desc_def ih)
qed

lemma valid_id_iff:
  "\<not> (\<not> truthy v \<or> \<not> isinstance_str v) \<longleftrightarrow> (\<exists>i. v = JStr i \<and> i \<noteq> [])"
  by (cases v) auto

lemma dict_get_id_valid:
  "dict_get d ''id'' JNull = JStr i \<longleftrightarrow> map_of d ''id'' = Some (JStr i)"
  by (auto simp: dict_get_def split: option.splits)

lemma append_edges_eq:
  "append_edges v ls es
     = es @ map (\<lambda>t. \<lparr>e_source = v, e_target = t\<rparr>) (filter isinstance_str ls)"
  by (induction ls arbitrary: es) auto

lemma build_edges_eq:
  "\<forall>j\<in>set ns. \<exists>d. j = JObj d \<Longrightarrow>
   build_edges ns es = Inr (es @ concat (map declared_edges ns))"
proof (induction ns arbitrary: es)
  case Nil
  then show ?case by simp
next
  case (Cons j ns)
  then obtain d where j: "j = JObj d" by auto
  have ih: "\<And>es. build_edges ns es = Inr (es @ concat (map declared_edges ns))"
    using Cons by simp
  show ?case
  proof (cases "\<exists>i. dict_get d ''id'' JNull = JStr i \<and> i \<noteq> []")
    case False
    then have skip: "\<not> truthy (dict_get d ''id'' JNull) \<or> \<not> isinstance_str (dict_get d ''id'' JNull)"
      using valid_id_iff by blast
    have "declared_edges (JObj d) = []"
      using False by (auto simp: dict_get_id_valid split: option.splits json.splits)
    with skip show ?thesis by (simp add: j ih)
  next
    case True
    then obtain i where i: "dict_get d ''id'' JNull = JStr i" "i \<noteq> []" by blast
    then have m: "map_of d ''id'' = Some (JStr i)" by (simp add: dict_get_id_valid)
    show ?thesis
      by (cases "map_of d ''links''")
         (auto simp: j ih i m dict_get_def append_edges_eq split: json.splits)
  qed
qed

lemma build_nodes_ok:
  "\<forall>j\<in>set ns. \<exists>d. j = JObj d \<Longrightarrow> \<exists>r. build_nodes ns acc seen = Inr r"
proof (induction ns arbitrary: acc seen)
  case Nil
  then show ?case by simp
next
  case (Cons j ns)
  then obtain d where j: "j = JObj d" by auto
  from Cons have "\<And>acc seen. \<exists>r. build_nodes ns acc seen = Inr r" by simp
  then show ?case by (simp add: j Let_def)
qed

lemma node_ok_Cons:
  "node_ok ns n \<Longrightarrow> \<not> has_id (nd_id n) j \<Longrightarrow> node_ok (j # ns) n"
  by (auto simp: node_ok_def)

lemma distinct_map_append_neq:
  "distinct (map f (xs @ ys)) \<Longrightarrow> a \<in> set (map f xs) \<Longrightarrow> n \<in> set ys \<Longrightarrow> f n \<noteq> a"
  by fastforce

lemma build_nodes_spec:
  "build_nodes ns acc seen = Inr r \<Longrightarrow> seen = set (map nd_id acc) \<Longrightarrow>
   distinct (map nd_id acc) \<Longrightarrow>
   \<exists>new. r = acc @ new \<and> distinct (map nd_id r)
     \<and> (\<forall>n\<in>set new. node_ok ns n)
     \<and> (\<forall>d i. JObj d \<in> set ns \<and> map_of d ''id'' = Some (JStr i) \<and> i \<noteq> []
            \<longrightarrow> JStr i \<in> set (map nd_id r))"
proof (induction ns arbitrary: acc seen r)
  case Nil
  then show ?case by simp
next
  case (Cons j ns)
  from Cons.prems(1) obtain d where j: "j = JObj d"
    by (cases j) auto
  let ?v = "dict_get d ''id'' JNull"
  show ?case
  proof (cases "\<exists>i. ?v = JStr i \<and> i \<noteq> []")
    case False
    then have skip: "\<not> truthy ?v \<or> \<not> isinstance_str ?v"
      using valid_id_iff by blast
    with Cons.prems(1) have "build_nodes ns acc seen = Inr r" by (simp add: j)
    from Cons.IH [OF this Cons.prems(2,3)] obtain new where
      new: "r = acc @ new" "distinct (map nd_id r)" "\<forall>n\<in>set new. node_ok ns n"
      "\<forall>d i. JObj d \<in> set ns \<and> map_of d ''id'' = Some (JStr i) \<and> i \<noteq> []
            \<longrightarrow> JStr i \<in> set (map nd_id r)"
      by blast
    have nh: "\<And>i. i \<noteq> [] \<Longrightarrow> \<not> has_id (JStr i) j"
      using False by (auto simp: j dict_get_id_valid)
    have "\<forall>n\<in>set new. node_ok (j # ns) n"
    proof
      fix n assume n: "n \<in> set new"
      with new(3) have ok: "node_ok ns n" by blast
      then obtain i where "nd_id n = JStr i" "i \<noteq> []" by (auto simp: node_ok_def)
      with nh have "\<not> has_id (nd_id n) j" by simp
      with ok show "node_ok (j # ns) n" by (rule node_ok_Cons)
    qed
    moreover have "\<forall>d' i. JObj d' \<in> set (j # ns) \<and> map_of d' ''id'' = Some (JStr i) \<and> i \<noteq> []
            \<longrightarrow> JStr i \<in> set (map nd_id r)"
      using new(4) False by (auto simp: j dict_get_id_valid)
    ultimately show ?thesis using new(1,2) by blast
  next
    case True
    then obtain i where i: "?v = JStr i" "i \<noteq> []" by blast
    then have m: "map_of d ''id'' = Some (JStr i)" by (simp add: dict_get_id_valid)
    show ?thesis
    proof (cases "JStr i \<in> seen")
      case True
      with Cons.prems(1) i have "build_nodes ns acc seen = Inr r" by (simp add: j)
      from Cons.IH [OF this Cons.prems(2,3)] obtain new where
        new: "r = acc @ new" "distinct (map nd_id r)" "\<forall>n\<in>set new. node_ok ns n"
        "\<forall>d i. JObj d \<in> set ns \<and> map_of d ''id'' = Some (JStr i) \<and> i \<noteq> []
              \<longrightarrow> JStr i \<in> set (map nd_id r)"
        by blast
      have inacc: "JStr i \<in> set (map nd_id acc)" using True Cons.prems(2) by simp
      have "\<forall>n\<in>set new. node_ok (j # ns) n"
      proof
        fix n assume n: "n \<in> set new"
        with new(3) have ok: "node_ok ns n" by blast
        have "nd_id n \<noteq> JStr i"
          using distinct_map_append_neq [of nd_id acc new "JStr i" n] new(1,2) n inacc by simp
        then have "\<not> has_id (nd_id n) j" using m by (auto simp: j)
        with ok show "node_ok (j # ns) n" by (rule node_ok_Cons)
      qed
      moreover have "\<forall>d' i'. JObj d' \<in> set (j # ns) \<and> map_of d' ''id'' = Some (JStr i') \<and> i' \<noteq> []
              \<longrightarrow> JStr i' \<in> set (map nd_id r)"
        using new(1,4) inacc m by (auto simp: j)
      ultimately show ?thesis using new(1,2) by blast
    next
      case False
      let ?n = "\<lparr>nd_id = JStr i, nd_title = dict_get d ''title'' (JStr i),
                 nd_domain = dict_get d ''domain'' (JStr ''default'')\<rparr>"
      from Cons.prems(1) i False
      have b: "build_nodes ns (acc @ [?n]) (insert (JStr i) seen) = Inr r"
        by (simp add: j Let_def)
      have s': "insert (JStr i) seen = set (map nd_id (acc @ [?n]))"
        using Cons.prems(2) by simp
      have d': "distinct (map nd_id (acc @ [?n]))"
        using Cons.prems(2,3) False by simp
      from Cons.IH [OF b s' d'] obtain new where
        new: "r = (acc @ [?n]) @ new" "distinct (map nd_id r)" "\<forall>n\<in>set new. node_ok ns n"
        "\<forall>d i. JObj d \<in> set ns \<and> map_of d ''id'' = Some (JStr i) \<and> i \<noteq> []
              \<longrightarrow> JStr i \<in> set (map nd_id r)"
        by blast
      have okn: "node_ok (j # ns) ?n"
        using i m by (auto simp: node_ok_def j dict_get_def)
      have "\<forall>n\<in>set (?n # new). node_ok (j # ns) n"
      proof
        fix n assume n: "n \<in> set (?n # new)"
        show "node_ok (j # ns) n"
        proof (cases "n = ?n")
          case True
          with okn show ?thesis by simp
        next
          case False
          with n have n': "n \<in> set new" by simp
          with new(3) have ok: "node_ok ns n" by blast
          have "nd_id n \<noteq> JStr i"
            using distinct_map_append_neq [of nd_id "acc @ [?n]" new "JStr i" n] new(1,2) n'
            by simp
          then have "\<not> has_id (nd_id n) j" using m by (auto simp: j)
          with ok show ?thesis by (rule node_ok_Cons)
        qed
      qed
      moreover have "\<forall>d' i'. JObj d' \<in> set (j # ns) \<and> map_of d' ''id'' = Some (JStr i') \<and> i' \<noteq> []
              \<longrightarrow> JStr i' \<in> set (map nd_id r)"
        using new(1,4) m by (auto simp: j)
      moreover have "r = acc @ (?n # new)" using new(1) by simp
      ultimately show ?thesis using new(2) by blast
    qed
  qed
qed

lemma declared_edges_source:
  "e \<in> set (declared_edges j) \<Longrightarrow>
   \<exists>d i. j = JObj d \<and> map_of d ''id'' = Some (JStr i) \<and> i \<noteq> [] \<and> e_source e = JStr i"
proof (cases j)
  case (JObj d)
  assume e: "e \<in> set (declared_edges j)"
  show ?thesis
  proof (cases "map_of d ''id''")
    case None
    with e JObj show ?thesis by simp
  next
    case (Some v)
    show ?thesis
    proof (cases v)
      case (JStr i)
      have ne: "i \<noteq> []" using e JObj Some JStr by (cases "i = []") simp_all
      have "e_source e = JStr i"
      proof (cases "map_of d ''links''")
        case None
        with e JObj Some JStr ne show ?thesis by simp
      next
        case (Some w)
        with e JObj \<open>map_of d ''id'' = Some v\<close> JStr ne show ?thesis
          by (cases w) auto
      qed
      with JObj Some JStr ne show ?thesis by simp
    qed (use e JObj Some in simp_all)
  qed
qed simp_all

lemma declared_edges_mem:
  "map_of d ''id'' = Some (JStr i) \<Longrightarrow> i \<noteq> [] \<Longrightarrow> map_of d ''links'' = Some (JArr ls) \<Longrightarrow>
   JStr t \<in> set ls \<Longrightarrow> \<lparr>e_source = JStr i, e_target = JStr t\<rparr> \<in> set (declared_edges (JObj d))"
  by simp

lemma build_graph_spec:
  assumes "\<forall>j\<in>set coll. \<exists>d. j = JObj d"
  shows "\<exists>r. build_graph_from_notes coll
                = Inr \<lparr>g_nodes = r, g_edges = concat (map declared_edges coll)\<rparr>
           \<and> distinct (map nd_id r) \<and> (\<forall>n\<in>set r. node_ok coll n)
           \<and> (\<forall>d i. JObj d \<in> set coll \<and> map_of d ''id'' = Some (JStr i) \<and> i \<noteq> []
                  \<longrightarrow> JStr i \<in> set (map nd_id r))"
proof -
  from build_nodes_ok [OF assms] obtain r where r: "build_nodes coll [] {} = Inr r"
    by blast
  have e: "{} = set (map nd_id ([] :: node list))" by simp
  have d: "distinct (map nd_id ([] :: node list))" by simp
  from build_nodes_spec [OF r e d] obtain new where
    new: "r = [] @ new" "distinct (map nd_id r)" "\<forall>n\<in>set new. node_ok coll n"
      "\<forall>d i. JObj d \<in> set coll \<and> map_of d ''id'' = Some (JStr i) \<and> i \<noteq> []
            \<longrightarrow> JStr i \<in> set (map nd_id r)"
    by blast
  from new(1) have rn: "r = new" by simp
  have g: "build_graph_from_notes coll
                = Inr \<lparr>g_nodes = r, g_edges = concat (map declared_edges coll)\<rparr>"
    by (simp add: build_graph_from_notes_def r build_edges_eq [OF assms])
  from g new(2) new(3) new(4) rn show ?thesis by blast
qed

lemma find_map_update:
  "find (\<lambda>n. n_id n = i) xs = Some note \<Longrightarrow> n_id n5 = i \<Longrightarrow>
   find (\<lambda>n. n_id n = i) (map (\<lambda>n. if n_id n = i then n5 else n) xs) = Some n5"
  by (induction xs) (auto split: if_splits)

lemma update_note_success:
  assumes "update_note i u uuid now utcnow s = (Inr n, s1)"
  shows "\<exists>note. query_note s i = Some note
           \<and> uuid \<notin> set (map v_id (tbl_note_versions s))
           \<and> tbl_note_versions s1
               = tbl_note_versions s
                 @ [\<lparr>v_id = uuid, v_note_id = i, v_old_content = n_content note,
                     v_change_reason = strip (u_change_reason u), v_changed_at = now\<rparr>]
           \<and> query_note s1 i = Some n"
proof (cases "query_note s i")
  case None
  with assms show ?thesis by (simp add: update_note_def)
next
  case (Some nt)
  have idn: "n_id nt = i"
    using Some by (auto simp: query_note_def find_Some_iff)
  from assms Some have
    ok: "\<not> (u_change_reason u = [] \<or> strip (u_change_reason u) = [])"
      "uuid \<notin> set (map v_id (tbl_note_versions s))"
    by (auto simp: update_note_def split: if_splits)
  from assms Some ok have
    s1: "tbl_note_versions s1
               = tbl_note_versions s
                 @ [\<lparr>v_id = uuid, v_note_id = i, v_old_content = n_content nt,
                     v_change_reason = strip (u_change_reason u), v_changed_at = now\<rparr>]"
    and n1: "tbl_notes s1 = map (\<lambda>m. if n_id m = i then n else m) (tbl_notes s)"
    and nid: "n_id n = i"
    by (auto simp: update_note_def Let_def idn split: option.splits)
  have "query_note s1 i = Some n"
    unfolding query_note_def n1
    using find_map_update [of i "tbl_notes s" nt n] Some nid
    by (simp add: query_note_def)
  with Some ok(2) s1 show ?thesis by simp
qed

lemma update_trace_versions:
  "update_trace i calls s = Some ss \<Longrightarrow>
   \<exists>new. tbl_note_versions (last ss) = tbl_note_versions s @ new
     \<and> length ss = Suc (length calls)
     \<and> (\<forall>v\<in>set new. v_note_id v = i)
     \<and> map (\<lambda>v. Some (v_old_content v)) new
         = map (\<lambda>st. map_option n_content (query_note st i)) (butlast ss)
     \<and> map v_changed_at new = map uc_now calls
     \<and> map v_id new = map uc_uuid calls
     \<and> distinct (map v_id new)
     \<and> set (map v_id new) \<inter> set (map v_id (tbl_note_versions s)) = {}"
proof (induction calls arbitrary: s ss)
  case Nil
  then show ?case by auto
next
  case (Cons c calls)
  from Cons.prems obtain n s1 ss1 where
    u: "update_note i (uc_data c) (uc_uuid c) (uc_now c) (uc_utcnow c) s = (Inr n, s1)"
    and t: "update_trace i calls s1 = Some ss1" and ss: "ss = s # ss1"
    by (auto split: prod.splits sum.splits)
  from update_note_success [OF u] obtain nt where
    q: "query_note s i = Some nt"
    and fresh: "uc_uuid c \<notin> set (map v_id (tbl_note_versions s))"
    and v1: "tbl_note_versions s1
               = tbl_note_versions s
                 @ [\<lparr>v_id = uc_uuid c, v_note_id = i, v_old_content = n_content nt,
                     v_change_reason = strip (u_change_reason (uc_data c)),
                     v_changed_at = uc_now c\<rparr>]"
    by blast
  let ?v = "\<lparr>v_id = uc_uuid c, v_note_id = i, v_old_content = n_content nt,
             v_change_reason = strip (u_change_reason (uc_data c)), v_changed_at = uc_now c\<rparr>"
  from Cons.IH [OF t] obtain new1 where
    a: "tbl_note_versions (last ss1) = tbl_note_versions s1 @ new1"
    and b: "length ss1 = Suc (length calls)"
    and c: "\<forall>v\<in>set new1. v_note_id v = i"
    and d: "map (\<lambda>v. Some (v_old_content v)) new1
         = map (\<lambda>st. map_option n_content (query_note st i)) (butlast ss1)"
    and e: "map v_changed_at new1 = map uc_now calls"
    and f: "map v_id new1 = map uc_uuid calls"
    and g: "distinct (map v_id new1)"
    and h: "set (map v_id new1) \<inter> set (map v_id (tbl_note_versions s1)) = {}"
    by blast
  from b have ne: "ss1 \<noteq> []" by auto
  have a': "tbl_note_versions (last ss) = tbl_note_versions s @ (?v # new1)"
    using a v1 ne by (simp add: ss)
  have b': "length ss = Suc (length (c # calls))" using b by (simp add: ss)
  have c': "\<forall>v\<in>set (?v # new1). v_note_id v = i" using c by simp
  have d': "map (\<lambda>v. Some (v_old_content v)) (?v # new1)
         = map (\<lambda>st. map_option n_content (query_note st i)) (butlast ss)"
    using d q ne by (simp add: ss)
  have e': "map v_changed_at (?v # new1) = map uc_now (c # calls)" using e by simp
  have f': "map v_id (?v # new1) = map uc_uuid (c # calls)" using f by simp
  have h1: "uc_uuid c \<notin> set (map v_id new1)"
    using h v1 by auto
  have g': "distinct (map v_id (?v # new1))" using g h1 by simp
  have h': "set (map v_id (?v # new1)) \<inter> set (map v_id (tbl_note_versions s)) = {}"
    using h v1 fresh by auto
  from a' b' c' d' e' f' g' h' show ?case by blast
qed

lemma update_trace_note_present:
  "update_trace i calls s = Some ss \<Longrightarrow> query_note s i \<noteq> None \<Longrightarrow>
   query_note (last ss) i \<noteq> None"
proof (induction calls arbitrary: s ss)
  case Nil
  then show ?case by auto
next
  case (Cons c calls)
  from Cons.prems obtain n s1 ss1 where
    u: "update_note i (uc_data c) (uc_uuid c) (uc_now c) (uc_utcnow c) s = (Inr n, s1)"
    and t: "update_trace i calls s1 = Some ss1" and ss: "ss = s # ss1"
    by (auto split: prod.splits sum.splits)
  from update_note_success [OF u] have q1: "query_note s1 i \<noteq> None" by auto
  from Cons.IH [OF t q1] have l: "query_note (last ss1) i \<noteq> None" .
  from t have "ss1 \<noteq> []" by (cases calls) (auto split: prod.splits sum.splits)
  with l show ?case by (simp add: ss)
qed

lemma filter_new_versions:
  assumes "set (map v_id new) \<inter> set (map v_id old) = {}"
  shows "filter (\<lambda>v. v \<in> set new) (filter P old @ new) = new"
proof -
  have "filter (\<lambda>v. v \<in> set new) (filter P old) = []"
    using assms by (auto simp: filter_empty_conv)
  moreover have "filter (\<lambda>v. v \<in> set new) new = new" by simp
  ultimately show ?thesis by simp
qed

section \<open>Claims\<close>

text \<open>
  C1, as stated, fails. Two updates of a note that the database stamps with the same
  time give two versions with equal \<^verbatim>\<open>changed_at\<close>, and \<^verbatim>\<open>get_note_versions\<close>
  returns the version of the first update before the version of the second: the older
  of the two first.
\<close>

theorem update_note_tied_versions_counterexample:
  "versions_after ''n1'' tied_calls created_store
     = Some (Inr [\<lparr>v_id = ''v1'', v_note_id = ''n1'', v_old_content = ''c0'',
                   v_change_reason = ''first'', v_changed_at = 5\<rparr>,
                  \<lparr>v_id = ''v2'', v_note_id = ''n1'', v_old_content = ''c1'',
                   v_change_reason = ''second'', v_changed_at = 5\<rparr>,
                  \<lparr>v_id = ''v0'', v_note_id = ''n1'', v_old_content = [],
                   v_change_reason = ''Initial creation'', v_changed_at = 1\<rparr>])"
  by (simp add: versions_after_def tied_calls_def created_store_eq update_note_def
        get_note_versions_def query_note_def order_by_desc_def strip_def isspace_def Let_def)

text \<open>
  C1, as amended. Let a note be in the store and let \<^verbatim>\<open>N\<close> calls of \<^verbatim>\<open>update_note\<close>
  on it succeed, one after the other. Then the table of versions has grown by exactly
  \<^verbatim>\<open>N\<close> rows, all of that note; the \<^verbatim>\<open>k\<close>-th of them holds as \<^verbatim>\<open>old_content\<close> the
  content the note had in the store just before the \<^verbatim>\<open>k\<close>-th call, and the time of
  that call as \<^verbatim>\<open>changed_at\<close>. \<^verbatim>\<open>get_note_versions\<close> then returns the versions the
  note had before together with the new ones, ordered by \<^verbatim>\<open>changed_at\<close> descending,
  versions with equal \<^verbatim>\<open>changed_at\<close> in the order of their creation. When the times
  of the calls increase strictly, the new versions stand in it in the reverse order of
  the calls, newest first.
\<close>

theorem update_note_version_history:
  assumes "query_note s note_id \<noteq> None"
    and "update_trace note_id calls s = Some ss"
  shows "\<exists>new vs.
           tbl_note_versions (last ss) = tbl_note_versions s @ new
         \<and> length new = length calls
         \<and> list_all (\<lambda>v. v_note_id v = note_id) new
         \<and> map (\<lambda>v. Some (v_old_content v)) new
             = map (\<lambda>st. map_option n_content (query_note st note_id)) (butlast ss)
         \<and> map v_changed_at new = map uc_now calls
         \<and> get_note_versions note_id (last ss) = Inr vs
         \<and> mset vs = mset (filter (\<lambda>v. v_note_id v = note_id) (tbl_note_versions s)) + mset new
         \<and> sorted_wrt (\<lambda>a b. v_changed_at b \<le> v_changed_at a) vs
         \<and> (\<forall>t. filter (\<lambda>v. v_changed_at v = t) vs
                 = filter (\<lambda>v. v_changed_at v = t)
                     (filter (\<lambda>v. v_note_id v = note_id) (tbl_note_versions s) @ new))
         \<and> (sorted_wrt (<) (map uc_now calls) \<longrightarrow> filter (\<lambda>v. v \<in> set new) vs = rev new)"
proof -
  from update_trace_versions [OF assms(2)] obtain new where
    a: "tbl_note_versions (last ss) = tbl_note_versions s @ new"
    and c: "\<forall>v\<in>set new. v_note_id v = note_id"
    and d: "map (\<lambda>v. Some (v_old_content v)) new
         = map (\<lambda>st. map_option n_content (query_note st note_id)) (butlast ss)"
    and e: "map v_changed_at new = map uc_now calls"
    and h: "set (map v_id new) \<inter> set (map v_id (tbl_note_versions s)) = {}"
    by blast
  let ?old = "filter (\<lambda>v. v_note_id v = note_id) (tbl_note_versions s)"
  let ?vs = "order_by_desc v_changed_at (?old @ new)"
  have len: "length new = length calls"
    using e by (metis length_map)
  have fn: "filter (\<lambda>v. v_note_id v = note_id) new = new"
    using c by simp
  from update_trace_note_present [OF assms(2) assms(1)]
  have g: "get_note_versions note_id (last ss) = Inr ?vs"
    by (auto simp: get_note_versions_def a fn)
  have m: "mset ?vs = mset ?old + mset new"
    by (simp add: order_by_desc_mset)
  have srt: "sorted_wrt (\<lambda>a b. v_changed_at b \<le> v_changed_at a) ?vs"
    by (rule order_by_desc_sorted)
  have stb: "\<forall>t. filter (\<lambda>v. v_changed_at v = t) ?vs
                 = filter (\<lambda>v. v_changed_at v = t) (?old @ new)"
    by (simp only: order_by_desc_stable) simp
  have newest: "filter (\<lambda>v. v \<in> set new) ?vs = rev new"
    if st: "sorted_wrt (<) (map uc_now calls)"
  proof -
    have "sorted_wrt (<) (map v_changed_at new)"
      using st e by simp
    then have id: "order_by_desc v_changed_at new = rev new"
      by (rule order_by_desc_increasing)
    have "filter (\<lambda>v. v \<in> set new) ?vs
            = order_by_desc v_changed_at (filter (\<lambda>v. v \<in> set new) (?old @ new))"
      by (rule order_by_desc_filter)
    also have "\<dots> = order_by_desc v_changed_at new"
      by (simp only: filter_new_versions [OF h])
    finally show ?thesis by (simp only: id)
  qed
  from a len c d e g m srt stb newest show ?thesis
    by (simp add: list_all_iff)
qed

theorem update_note_version_history_witness:
  "\<exists>ss new vs.
       query_note created_store ''n1'' \<noteq> None
     \<and> update_trace ''n1'' example_calls created_store = Some ss
     \<and> tbl_note_versions (last ss) = tbl_note_versions created_store @ new
     \<and> length (tbl_note_versions created_store) = 1
     \<and> map (\<lambda>v. Some (v_old_content v)) new = [Some ''c0'', Some ''c1'']
     \<and> get_note_versions ''n1'' (last ss) = Inr vs
     \<and> length vs = 3
     \<and> filter (\<lambda>v. v \<in> set new) vs = rev new"
proof -
  have cs: "created_store =
      \<lparr>tbl_notes = [\<lparr>n_id = ''n1'', n_title = ''T'', n_content = ''c0'', n_note_type = IDEA,
                     n_domain = OTHER, n_created_at = 1, n_updated_at = None\<rparr>],
       tbl_note_versions = [\<lparr>v_id = ''v0'', v_note_id = ''n1'', v_old_content = [],
                             v_change_reason = ''Initial creation'', v_changed_at = 1\<rparr>],
       tbl_links = []\<rparr>"
    by (simp add: created_store_def empty_store_def create_note_def strip_def isspace_def
          Let_def)
  have q: "query_note created_store ''n1'' \<noteq> None"
    by (simp add: cs query_note_def)
  have "\<exists>ss. update_trace ''n1'' example_calls created_store = Some ss
          \<and> map (\<lambda>st. map_option n_content (query_note st ''n1'')) (butlast ss)
              = [Some ''c0'', Some ''c1'']"
    by (simp add: cs example_calls_def update_note_def query_note_def strip_def
          isspace_def Let_def)
  then obtain ss where t: "update_trace ''n1'' example_calls created_store = Some ss"
    and b: "map (\<lambda>st. map_option n_content (query_note st ''n1'')) (butlast ss)
              = [Some ''c0'', Some ''c1'']"
    by (elim exE conjE)
  have st: "sorted_wrt (<) (map uc_now example_calls)"
    by (simp add: example_calls_def)
  have l1: "tbl_note_versions created_store
              = [\<lparr>v_id = ''v0'', v_note_id = ''n1'', v_old_content = [],
                  v_change_reason = ''Initial creation'', v_changed_at = 1\<rparr>]"
    by (simp add: cs)
  from update_note_version_history [OF q t] obtain new vs where
    r: "tbl_note_versions (last ss) = tbl_note_versions created_store @ new"
      "length new = length example_calls"
      "map (\<lambda>v. Some (v_old_content v)) new
             = map (\<lambda>st. map_option n_content (query_note st ''n1'')) (butlast ss)"
      "get_note_versions ''n1'' (last ss) = Inr vs"
      "mset vs = mset (filter (\<lambda>v. v_note_id v = ''n1'') (tbl_note_versions created_store))
                 + mset new"
      "sorted_wrt (<) (map uc_now example_calls) \<longrightarrow> filter (\<lambda>v. v \<in> set new) vs = rev new"
    by blast
  from r(5) have "size (mset vs) = size (mset (filter (\<lambda>v. v_note_id v = ''n1'')
                      (tbl_note_versions created_store)) + mset new)"
    by simp
  then have "length vs = 3"
    using r(2) by (simp add: l1 example_calls_def)
  with q t r b st l1 show ?thesis by auto
qed

text \<open>
  C2. On a collection whose entries all are note objects, \<^verbatim>\<open>_build_graph_from_notes\<close>
  returns a graph. Its nodes have pairwise different identifiers; each node has a
  non-empty string as identifier and takes its title and its domain from the first
  entry of the collection with that identifier, the title being the identifier and the
  domain \<^verbatim>\<open>"default"\<close> where that entry has none; every non-empty string identifier
  of an entry is the identifier of a node. Its edges are the declared edges of the
  entries, in order: one for each string under \<^verbatim>\<open>links\<close>, whether a node has the
  target as identifier or not. On the collection of the example the result is the one
  node \<^verbatim>\<open>a\<close> with title \<^verbatim>\<open>A\<close> and the one edge from \<^verbatim>\<open>a\<close> to \<^verbatim>\<open>b\<close>.
\<close>

theorem build_graph_from_notes_permissive:
  "((\<forall>j\<in>set coll. \<exists>d. j = JObj d) \<longrightarrow>
      (\<exists>g. build_graph_from_notes coll = Inr g
         \<and> distinct (map nd_id (g_nodes g))
         \<and> (\<forall>n\<in>set (g_nodes g). \<exists>i d.
               nd_id n = JStr i \<and> i \<noteq> [] \<and> find (has_id (JStr i)) coll = Some (JObj d)
               \<and> nd_title n = (case map_of d ''title'' of None \<Rightarrow> JStr i | Some t \<Rightarrow> t)
               \<and> nd_domain n
                   = (case map_of d ''domain'' of None \<Rightarrow> JStr ''default'' | Some v \<Rightarrow> v))
         \<and> (\<forall>d i. JObj d \<in> set coll \<and> map_of d ''id'' = Some (JStr i) \<and> i \<noteq> []
                \<longrightarrow> JStr i \<in> set (map nd_id (g_nodes g)))
         \<and> g_edges g = concat (map declared_edges coll)))
   \<and> build_graph_from_notes example_notes
       = Inr \<lparr>g_nodes = [\<lparr>nd_id = JStr ''a'', nd_title = JStr ''A'',
                           nd_domain = JStr ''default''\<rparr>],
              g_edges = [\<lparr>e_source = JStr ''a'', e_target = JStr ''b''\<rparr>]\<rparr>"
proof (intro conjI impI)
  assume "\<forall>j\<in>set coll. \<exists>d. j = JObj d"
  from build_graph_spec [OF this] show
    "\<exists>g. build_graph_from_notes coll = Inr g
         \<and> distinct (map nd_id (g_nodes g))
         \<and> (\<forall>n\<in>set (g_nodes g). \<exists>i d.
               nd_id n = JStr i \<and> i \<noteq> [] \<and> find (has_id (JStr i)) coll = Some (JObj d)
               \<and> nd_title n = (case map_of d ''title'' of None \<Rightarrow> JStr i | Some t \<Rightarrow> t)
               \<and> nd_domain n
                   = (case map_of d ''domain'' of None \<Rightarrow> JStr ''default'' | Some v \<Rightarrow> v))
         \<and> (\<forall>d i. JObj d \<in> set coll \<and> map_of d ''id'' = Some (JStr i) \<and> i \<noteq> []
                \<longrightarrow> JStr i \<in> set (map nd_id (g_nodes g)))
         \<and> g_edges g = concat (map declared_edges coll)"
    unfolding node_ok_def by fastforce
next
  show "build_graph_from_notes example_notes
       = Inr \<lparr>g_nodes = [\<lparr>nd_id = JStr ''a'', nd_title = JStr ''A'',
                           nd_domain = JStr ''default''\<rparr>],
              g_edges = [\<lparr>e_source = JStr ''a'', e_target = JStr ''b''\<rparr>]\<rparr>"
    by (simp add: example_notes_def build_graph_from_notes_def dict_get_def)
qed

theorem build_graph_from_notes_permissive_witness:
  "\<exists>g. build_graph_from_notes duplicate_notes = Inr g
      \<and> distinct (map nd_id (g_nodes g))
      \<and> g_edges g = [\<lparr>e_source = JStr ''a'', e_target = JStr ''b''\<rparr>,
                     \<lparr>e_source = JStr ''a'', e_target = JStr ''c''\<rparr>]"
proof -
  have h: "\<forall>j\<in>set duplicate_notes. \<exists>d. j = JObj d"
    by (simp add: duplicate_notes_def)
  from build_graph_from_notes_permissive [of duplicate_notes, THEN conjunct1, THEN mp, OF h]
  obtain g where g: "build_graph_from_notes duplicate_notes = Inr g"
    "distinct (map nd_id (g_nodes g))"
    "g_edges g = concat (map declared_edges duplicate_notes)"
    by blast
  have "concat (map declared_edges duplicate_notes)
          = [\<lparr>e_source = JStr ''a'', e_target = JStr ''b''\<rparr>,
             \<lparr>e_source = JStr ''a'', e_target = JStr ''c''\<rparr>]"
    by (simp add: duplicate_notes_def)
  with g show ?thesis by simp
qed

text \<open>
  C3. For every store and every optional domain filter, the nodes of
  \<^verbatim>\<open>get_graph_data\<close> are, one for one and in the order of the table, the notes that
  pass the filter, each node holding the id, title, type and domain of its note. Its
  edges are, one for one and in the order of the table, exactly the links of the store
  whose \<^verbatim>\<open>from_id\<close> and \<^verbatim>\<open>to_id\<close> both are identifiers of notes that pass the filter,
  each edge holding the id of its link, its \<^verbatim>\<open>from_id\<close> as source, its \<^verbatim>\<open>to_id\<close> as
  target and its relation. So the source and the target of every edge are among the
  nodes, and a link from a note inside the filter to a note outside it yields no edge.
\<close>

theorem get_graph_data_edges:
  "list_all2 (\<lambda>n a. gn_id n = n_id a \<and> gn_title n = n_title a
                    \<and> gn_note_type n = n_note_type a \<and> gn_domain n = n_domain a)
     (gr_nodes (get_graph_data domain s))
     (filter (\<lambda>n. domain = None \<or> domain = Some (n_domain n)) (tbl_notes s))
   \<and> list_all2 (\<lambda>e l. ge_id e = l_id l \<and> Some (ge_source e) = l_from_id l
                      \<and> Some (ge_target e) = l_to_id l \<and> ge_relation e = l_relation l)
     (gr_edges (get_graph_data domain s))
     (filter (\<lambda>l. (\<exists>a\<in>set (tbl_notes s). (domain = None \<or> domain = Some (n_domain a))
                                          \<and> l_from_id l = Some (n_id a))
                 \<and> (\<exists>b\<in>set (tbl_notes s). (domain = None \<or> domain = Some (n_domain b))
                                          \<and> l_to_id l = Some (n_id b)))
        (tbl_links s))
   \<and> (\<forall>e\<in>set (gr_edges (get_graph_data domain s)).
         ge_source e \<in> set (map gn_id (gr_nodes (get_graph_data domain s)))
         \<and> ge_target e \<in> set (map gn_id (gr_nodes (get_graph_data domain s))))"
proof -
  let ?ns = "filter (\<lambda>n. domain = None \<or> domain = Some (n_domain n)) (tbl_notes s)"
  let ?sel = "\<lambda>l. (\<exists>a\<in>set (tbl_notes s). (domain = None \<or> domain = Some (n_domain a))
                                          \<and> l_from_id l = Some (n_id a))
                 \<and> (\<exists>b\<in>set (tbl_notes s). (domain = None \<or> domain = Some (n_domain b))
                                          \<and> l_to_id l = Some (n_id b))"
  have ns: "(case domain of None \<Rightarrow> tbl_notes s
             | Some d \<Rightarrow> filter (\<lambda>n. n_domain n = d) (tbl_notes s)) = ?ns"
    by (cases domain) (auto intro: filter_cong)
  have sel: "\<And>c. col_in c (map n_id ?ns)
               \<longleftrightarrow> (\<exists>a\<in>set (tbl_notes s). (domain = None \<or> domain = Some (n_domain a))
                                           \<and> c = Some (n_id a))"
    by (auto simp: col_in_def split: option.splits)
  have n: "gr_nodes (get_graph_data domain s) = map graph_node ?ns"
    by (simp add: get_graph_data_def ns Let_def)
  have e: "gr_edges (get_graph_data domain s) = map graph_edge (filter ?sel (tbl_links s))"
    by (simp add: get_graph_data_def ns Let_def sel)
  have n2: "list_all2 (\<lambda>n a. gn_id n = n_id a \<and> gn_title n = n_title a
                    \<and> gn_note_type n = n_note_type a \<and> gn_domain n = n_domain a)
              (map graph_node ?ns) ?ns"
    by (simp add: list_all2_map1 graph_node_def list_all2_same)
  have e2: "list_all2 (\<lambda>e l. ge_id e = l_id l \<and> Some (ge_source e) = l_from_id l
                      \<and> Some (ge_target e) = l_to_id l \<and> ge_relation e = l_relation l)
              (map graph_edge (filter ?sel (tbl_links s))) (filter ?sel (tbl_links s))"
    by (auto simp: list_all2_map1 graph_edge_def list_all2_same)
  have m: "\<forall>e\<in>set (map graph_edge (filter ?sel (tbl_links s))).
         ge_source e \<in> set (map gn_id (map graph_node ?ns))
         \<and> ge_target e \<in> set (map gn_id (map graph_node ?ns))"
    by (auto simp: graph_edge_def graph_node_def)
  from n2 e2 m show ?thesis unfolding n e by blast
qed

theorem get_graph_data_edges_witness:
  "get_graph_data (Some PHYSICS) store_xy
     = \<lparr>gr_nodes = [\<lparr>gn_id = ''x'', gn_title = ''X'', gn_note_type = IDEA,
                      gn_domain = PHYSICS\<rparr>],
        gr_edges = []\<rparr>
   \<and> gr_edges (get_graph_data None store_xy)
     = [\<lparr>ge_id = ''l1'', ge_source = ''x'', ge_target = ''y'', ge_relation = REFERENCES\<rparr>]"
proof -
  note t = get_graph_data_edges
  have f1: "filter (\<lambda>n. Some PHYSICS = None \<or> Some PHYSICS = Some (n_domain n))
              (tbl_notes store_xy) = [note_x]"
    by (simp add: example_defs)
  have f2: "filter (\<lambda>l. (\<exists>a\<in>set (tbl_notes store_xy).
                (Some PHYSICS = None \<or> Some PHYSICS = Some (n_domain a))
                  \<and> l_from_id l = Some (n_id a))
              \<and> (\<exists>b\<in>set (tbl_notes store_xy).
                (Some PHYSICS = None \<or> Some PHYSICS = Some (n_domain b))
                  \<and> l_to_id l = Some (n_id b)))
              (tbl_links store_xy) = []"
    by (simp add: example_defs)
  have f3: "filter (\<lambda>l. (\<exists>a\<in>set (tbl_notes store_xy).
                ((None :: Domain option) = None \<or> None = Some (n_domain a))
                  \<and> l_from_id l = Some (n_id a))
              \<and> (\<exists>b\<in>set (tbl_notes store_xy).
                ((None :: Domain option) = None \<or> None = Some (n_domain b))
                  \<and> l_to_id l = Some (n_id b)))
              (tbl_links store_xy) = [link_xy]"
    by (simp add: example_defs)
  from t [of "Some PHYSICS" store_xy] have
    a: "list_all2 (\<lambda>n a. gn_id n = n_id a \<and> gn_title n = n_title a
                    \<and> gn_note_type n = n_note_type a \<and> gn_domain n = n_domain a)
         (gr_nodes (get_graph_data (Some PHYSICS) store_xy)) [note_x]"
    and b: "gr_edges (get_graph_data (Some PHYSICS) store_xy) = []"
    unfolding f1 f2 by simp_all
  from a have a': "gr_nodes (get_graph_data (Some PHYSICS) store_xy)
      = [\<lparr>gn_id = ''x'', gn_title = ''X'', gn_note_type = IDEA, gn_domain = PHYSICS\<rparr>]"
    by (auto simp: list_all2_Cons2 note_x_def)
  from t [of None store_xy] have
    "list_all2 (\<lambda>e l. ge_id e = l_id l \<and> Some (ge_source e) = l_from_id l
                      \<and> Some (ge_target e) = l_to_id l \<and> ge_relation e = l_relation l)
       (gr_edges (get_graph_data None store_xy)) [link_xy]"
    unfolding f3 by simp
  then have c: "gr_edges (get_graph_data None store_xy)
     = [\<lparr>ge_id = ''l1'', ge_source = ''x'', ge_target = ''y'', ge_relation = REFERENCES\<rparr>]"
    by (auto simp: list_all2_Cons2 link_xy_def)
  have "get_graph_data (Some PHYSICS) store_xy
     = \<lparr>gr_nodes = gr_nodes (get_graph_data (Some PHYSICS) store_xy),
        gr_edges = gr_edges (get_graph_data (Some PHYSICS) store_xy)\<rparr>"
    by simp
  with a' b c show ?thesis by simp
qed

text \<open>
  C4. Deleting the note \<^verbatim>\<open>x\<close> of the example store removes the note and its version,
  but the link from \<^verbatim>\<open>x\<close> to \<^verbatim>\<open>y\<close> stays in the table of links, with its source
  set to NULL, and \<^verbatim>\<open>get_note\<close> on \<^verbatim>\<open>x\<close> then fails with status 404. The
  relationships \<^verbatim>\<open>outgoing_links\<close> and \<^verbatim>\<open>incoming_links\<close> of \<^verbatim>\<open>Note\<close> declare
  no delete cascade, unlike \<^verbatim>\<open>versions\<close>.
\<close>

theorem delete_note_keeps_link:
  "delete_note ''x'' store_xy =
     (Inr ''x'',
      \<lparr>tbl_notes = [note_y],
       tbl_note_versions =
         [\<lparr>v_id = ''vy'', v_note_id = ''y'', v_old_content = [],
           v_change_reason = ''Initial creation'', v_changed_at = 2\<rparr>],
       tbl_links = [link_xy\<lparr>l_from_id := None\<rparr>]\<rparr>)
   \<and> get_note ''x'' (snd (delete_note ''x'' store_xy))
       = Inl (HTTPException 404 ''Note with ID x not found'')"
  by (simp add: delete_note_def db_delete_note_def get_note_def query_note_def example_defs)

text \<open>
  C5. \<^verbatim>\<open>create_link\<close> fails with status 404 (not found) when either endpoint is not in
  the store. For two notes that are in the store it fails with status 400 and the detail
  "Cannot link a note to itself" (the validation error) when \<^verbatim>\<open>from_id\<close> equals
  \<^verbatim>\<open>to_id\<close>, and with status 400 and the detail "Link already exists between these
  notes" (the conflict error) when a link with the same ordered pair is in the store.
  No failure changes the store. Otherwise, the generated identifier being new, it
  returns the new link and appends it to the table of links.
\<close>

theorem create_link_outcomes:
  "(query_note s (lc_from_id link) = None \<or> query_note s (lc_to_id link) = None
      \<longrightarrow> (\<exists>d. create_link link uuid now s = (Inl (HTTPException 404 d), s)))
   \<and> (query_note s (lc_from_id link) \<noteq> None \<and> query_note s (lc_to_id link) \<noteq> None
        \<and> lc_from_id link = lc_to_id link
      \<longrightarrow> create_link link uuid now s
            = (Inl (HTTPException 400 ''Cannot link a note to itself''), s))
   \<and> (query_note s (lc_from_id link) \<noteq> None \<and> query_note s (lc_to_id link) \<noteq> None
        \<and> lc_from_id link \<noteq> lc_to_id link
        \<and> (\<exists>l\<in>set (tbl_links s). l_from_id l = Some (lc_from_id link)
                                  \<and> l_to_id l = Some (lc_to_id link))
      \<longrightarrow> create_link link uuid now s
            = (Inl (HTTPException 400 ''Link already exists between these notes''), s))
   \<and> (query_note s (lc_from_id link) \<noteq> None \<and> query_note s (lc_to_id link) \<noteq> None
        \<and> lc_from_id link \<noteq> lc_to_id link
        \<and> \<not> (\<exists>l\<in>set (tbl_links s). l_from_id l = Some (lc_from_id link)
                                    \<and> l_to_id l = Some (lc_to_id link))
        \<and> uuid \<notin> set (map l_id (tbl_links s))
      \<longrightarrow> create_link link uuid now s
            = (Inr \<lparr>l_id = uuid, l_from_id = Some (lc_from_id link),
                    l_to_id = Some (lc_to_id link), l_relation = lc_relation link,
                    l_created_at = now\<rparr>,
               s\<lparr>tbl_links := tbl_links s
                    @ [\<lparr>l_id = uuid, l_from_id = Some (lc_from_id link),
                         l_to_id = Some (lc_to_id link), l_relation = lc_relation link,
                         l_created_at = now\<rparr>]\<rparr>))"
proof -
  have f: "find (\<lambda>l. l_from_id l = Some (lc_from_id link) \<and> l_to_id l = Some (lc_to_id link))
             (tbl_links s) \<noteq> None
           \<longleftrightarrow> (\<exists>l\<in>set (tbl_links s). l_from_id l = Some (lc_from_id link)
                                      \<and> l_to_id l = Some (lc_to_id link))"
    by (auto simp: find_None_iff)
  show ?thesis
    unfolding create_link_def Let_def f by auto
qed

theorem create_link_outcomes_witness:
  "create_link \<lparr>lc_from_id = ''zz'', lc_to_id = ''y'', lc_relation = SUPPORTS\<rparr> ''l2'' 7 store_xy
     = (Inl (HTTPException 404 ''Source note with ID zz not found''), store_xy)
   \<and> create_link \<lparr>lc_from_id = ''x'', lc_to_id = ''x'', lc_relation = SUPPORTS\<rparr> ''l2'' 7 store_xy
     = (Inl (HTTPException 400 ''Cannot link a note to itself''), store_xy)
   \<and> create_link \<lparr>lc_from_id = ''x'', lc_to_id = ''y'', lc_relation = SUPPORTS\<rparr> ''l2'' 7 store_xy
     = (Inl (HTTPException 400 ''Link already exists between these notes''), store_xy)
   \<and> create_link \<lparr>lc_from_id = ''y'', lc_to_id = ''x'', lc_relation = SUPPORTS\<rparr> ''l2'' 7 store_xy
     = (Inr \<lparr>l_id = ''l2'', l_from_id = Some ''y'', l_to_id = Some ''x'',
             l_relation = SUPPORTS, l_created_at = 7\<rparr>,
        store_xy\<lparr>tbl_links := [link_xy, \<lparr>l_id = ''l2'', l_from_id = Some ''y'',
                     l_to_id = Some ''x'', l_relation = SUPPORTS, l_created_at = 7\<rparr>]\<rparr>)"
proof -
  have q: "query_note store_xy ''x'' \<noteq> None" "query_note store_xy ''y'' \<noteq> None"
    "query_note store_xy ''zz'' = None"
    by (simp_all add: query_note_def example_defs)
  have l: "tbl_links store_xy = [link_xy]" by (simp add: store_xy_def)
  note t = create_link_outcomes
  from t [of store_xy "\<lparr>lc_from_id = ''zz'', lc_to_id = ''y'', lc_relation = SUPPORTS\<rparr>" "''l2''" 7] q
  obtain d where c0: "create_link \<lparr>lc_from_id = ''zz'', lc_to_id = ''y'', lc_relation = SUPPORTS\<rparr> ''l2'' 7 store_xy
     = (Inl (HTTPException 404 d), store_xy)"
    by auto
  have "fst (create_link \<lparr>lc_from_id = ''zz'', lc_to_id = ''y'', lc_relation = SUPPORTS\<rparr> ''l2'' 7 store_xy)
     = Inl (HTTPException 404 ''Source note with ID zz not found'')"
    using q by (simp add: create_link_def)
  with c0 have c1: "create_link \<lparr>lc_from_id = ''zz'', lc_to_id = ''y'', lc_relation = SUPPORTS\<rparr> ''l2'' 7 store_xy
     = (Inl (HTTPException 404 ''Source note with ID zz not found''), store_xy)"
    by simp
  from t [of store_xy "\<lparr>lc_from_id = ''x'', lc_to_id = ''x'', lc_relation = SUPPORTS\<rparr>" "''l2''" 7] q
  have c2: "create_link \<lparr>lc_from_id = ''x'', lc_to_id = ''x'', lc_relation = SUPPORTS\<rparr> ''l2'' 7 store_xy
     = (Inl (HTTPException 400 ''Cannot link a note to itself''), store_xy)"
    by simp
  from t [of store_xy "\<lparr>lc_from_id = ''x'', lc_to_id = ''y'', lc_relation = SUPPORTS\<rparr>" "''l2''" 7] q
  have c3: "create_link \<lparr>lc_from_id = ''x'', lc_to_id = ''y'', lc_relation = SUPPORTS\<rparr> ''l2'' 7 store_xy
     = (Inl (HTTPException 400 ''Link already exists between these notes''), store_xy)"
    by (simp add: l link_xy_def)
  from t [of store_xy "\<lparr>lc_from_id = ''y'', lc_to_id = ''x'', lc_relation = SUPPORTS\<rparr>" "''l2''" 7] q
  have c4: "create_link \<lparr>lc_from_id = ''y'', lc_to_id = ''x'', lc_relation = SUPPORTS\<rparr> ''l2'' 7 store_xy
     = (Inr \<lparr>l_id = ''l2'', l_from_id = Some ''y'', l_to_id = Some ''x'',
             l_relation = SUPPORTS, l_created_at = 7\<rparr>,
        store_xy\<lparr>tbl_links := [link_xy, \<lparr>l_id = ''l2'', l_from_id = Some ''y'',
                     l_to_id = Some ''x'', l_relation = SUPPORTS, l_created_at = 7\<rparr>]\<rparr>)"
    by (simp add: l link_xy_def)
  from c1 c2 c3 c4 show ?thesis by blast
qed

text \<open>
  C6. For a note that is in the store, \<^verbatim>\<open>update_note\<close> with a change reason that is
  empty or consists of whitespace only fails with status 400 (the validation error
  "Change reason is required for updates") and leaves the whole store, hence the note
  with all its fields and its version history, as it was. On an identifier that is not
  in the store it fails with status 404 (not found), whatever the request holds.
\<close>

theorem update_note_rejects_blank_reason:
  "(query_note s note_id \<noteq> None \<and> (\<forall>c\<in>set (u_change_reason update_data). isspace c)
      \<longrightarrow> update_note note_id update_data uuid now utcnow s
            = (Inl (HTTPException 400 ''Change reason is required for updates''), s))
   \<and> (query_note s note_id = None
      \<longrightarrow> update_note note_id update_data uuid now utcnow s
            = (Inl (HTTPException 404 (''Note with ID '' @ note_id @ '' not found'')), s))"
  by (auto simp: update_note_def strip_eq_Nil_iff)

theorem update_note_rejects_blank_reason_witness:
  "query_note store_xy ''x'' \<noteq> None \<and> list_all isspace ''  ''
   \<and> update_note ''x'' \<lparr>u_title = None, u_content = Some ''new'', u_note_type = None,
                         u_domain = None, u_change_reason = ''  ''\<rparr> ''v2'' 5 6 store_xy
       = (Inl (HTTPException 400 ''Change reason is required for updates''), store_xy)
   \<and> query_note store_xy ''zz'' = None
   \<and> update_note ''zz'' \<lparr>u_title = None, u_content = Some ''new'', u_note_type = None,
                         u_domain = None, u_change_reason = ''why''\<rparr> ''v2'' 5 6 store_xy
       = (Inl (HTTPException 404 ''Note with ID zz not found''), store_xy)"
proof -
  have h1: "query_note store_xy ''x'' \<noteq> None \<and> (\<forall>c\<in>set ''  ''. isspace c)"
    by (simp add: query_note_def example_defs isspace_def)
  have h2: "query_note store_xy ''zz'' = None"
    by (simp add: query_note_def example_defs)
  note t = update_note_rejects_blank_reason
  from t [of store_xy "''x''" "\<lparr>u_title = None, u_content = Some ''new'', u_note_type = None,
                         u_domain = None, u_change_reason = ''  ''\<rparr>" "''v2''" 5 6] h1
  have c1: "update_note ''x'' \<lparr>u_title = None, u_content = Some ''new'', u_note_type = None,
                         u_domain = None, u_change_reason = ''  ''\<rparr> ''v2'' 5 6 store_xy
       = (Inl (HTTPException 400 ''Change reason is required for updates''), store_xy)"
    by simp
  from t [of store_xy "''zz''" "\<lparr>u_title = None, u_content = Some ''new'', u_note_type = None,
                         u_domain = None, u_change_reason = ''why''\<rparr>" "''v2''" 5 6] h2
  have c2: "update_note ''zz'' \<lparr>u_title = None, u_content = Some ''new'', u_note_type = None,
                         u_domain = None, u_change_reason = ''why''\<rparr> ''v2'' 5 6 store_xy
       = (Inl (HTTPException 404 ''Note with ID zz not found''), store_xy)"
    by simp
  from h1 h2 c1 c2 show ?thesis by (simp add: list_all_iff)
qed

text \<open>
  C7. For an identifier that is not in the store, \<^verbatim>\<open>get_note_versions\<close> raises
  \<^verbatim>\<open>AttributeError\<close> (the misspelt \<^verbatim>\<open>status.HTP_404_NOT_FOUND\<close>), which the general
  exception handler answers with status 500, where \<^verbatim>\<open>get_note\<close> answers the same
  request with status 404.
\<close>

theorem get_note_versions_missing_note:
  "get_note_versions ''zz'' store_xy = Inl (AttributeError ''HTP_404_NOT_FOUND'')
   \<and> status_code (AttributeError ''HTP_404_NOT_FOUND'') = 500
   \<and> get_note ''zz'' store_xy = Inl (HTTPException 404 ''Note with ID zz not found'')"
  by (simp add: get_note_versions_def get_note_def query_note_def example_defs)

text \<open>
  C8, as stated, fails: with \<^verbatim>\<open>skip = -1\<close> the handler raises no validation error.
  On an engine that rejects a negative OFFSET the exception of the driver is answered
  with status 500; on an engine that ignores it the full first page is returned.
\<close>

theorem get_all_notes_negative_skip_counterexample:
  "get_all_notes RejectsNegative (- 1) 10 None None store_xy = Inl DBAPIError
   \<and> status_code DBAPIError = 500
   \<and> get_all_notes IgnoresNegative (- 1) 10 None None store_xy = Inr [note_y, note_x]"
  by (simp add: get_all_notes_def offset_limit_def int64_range_def order_by_desc_def
        example_defs)

text \<open>
  C8, as amended. \<^verbatim>\<open>get_all_notes\<close> never fails with a validation error (status 400),
  whatever \<^verbatim>\<open>skip\<close> and \<^verbatim>\<open>limit\<close> are and whatever the engine does with negative
  values; with a value outside the 64-bit range it fails with the exception of the
  driver. For \<^verbatim>\<open>skip\<close> and \<^verbatim>\<open>limit\<close> from 0 up to, and not including, \<^verbatim>\<open>2^63\<close>
  it returns the page \<^verbatim>\<open>all[skip : skip + limit]\<close> of the list \<^verbatim>\<open>all\<close> of the notes
  that pass the filters, ordered by \<^verbatim>\<open>created_at\<close> descending, notes with equal
  \<^verbatim>\<open>created_at\<close> in the order of the table.
\<close>

theorem get_all_notes_pagination:
  "(\<forall>d. get_all_notes e skip limit domain note_type s \<noteq> Inl (HTTPException 400 d))
   \<and> (\<not> int64_range skip \<or> \<not> int64_range limit
        \<longrightarrow> get_all_notes e skip limit domain note_type s = Inl DBAPIError)
   \<and> (0 \<le> skip \<and> skip < 2 ^ 63 \<and> 0 \<le> limit \<and> limit < 2 ^ 63 \<longrightarrow>
        (\<exists>all. mset all = mset (filter (\<lambda>n. (domain = None \<or> domain = Some (n_domain n))
                                         \<and> (note_type = None \<or> note_type = Some (n_note_type n)))
                                (tbl_notes s))
           \<and> sorted_wrt (\<lambda>a b. n_created_at b \<le> n_created_at a) all
           \<and> (\<forall>t. filter (\<lambda>n. n_created_at n = t) all
                   = filter (\<lambda>n. n_created_at n = t)
                       (filter (\<lambda>n. (domain = None \<or> domain = Some (n_domain n))
                                   \<and> (note_type = None \<or> note_type = Some (n_note_type n)))
                          (tbl_notes s)))
           \<and> get_all_notes e skip limit domain note_type s
               = Inr (take (nat limit) (drop (nat skip) all))))"
proof -
  let ?P = "\<lambda>n. (domain = None \<or> domain = Some (n_domain n))
                 \<and> (note_type = None \<or> note_type = Some (n_note_type n))"
  let ?q1 = "case domain of None \<Rightarrow> tbl_notes s
             | Some d \<Rightarrow> filter (\<lambda>n. n_domain n = d) (tbl_notes s)"
  let ?q2 = "case note_type of None \<Rightarrow> ?q1 | Some t \<Rightarrow> filter (\<lambda>n. n_note_type n = t) ?q1"
  have q2: "?q2 = filter ?P (tbl_notes s)"
    by (cases domain; cases note_type) (auto intro: filter_cong)
  let ?all = "order_by_desc n_created_at (filter ?P (tbl_notes s))"
  have g: "get_all_notes e skip limit domain note_type s = offset_limit e skip limit ?all"
    by (simp add: get_all_notes_def q2)
  have b: "0 \<le> skip \<and> skip < 2 ^ 63 \<and> 0 \<le> limit \<and> limit < 2 ^ 63
           \<longrightarrow> get_all_notes e skip limit domain note_type s
             = Inr (take (nat limit) (drop (nat skip) ?all))"
    by (simp add: g offset_limit_def int64_range_def)
  have c: "\<forall>d. get_all_notes e skip limit domain note_type s \<noteq> Inl (HTTPException 400 d)"
    by (simp add: g offset_limit_def)
  have ov: "\<not> int64_range skip \<or> \<not> int64_range limit
        \<longrightarrow> get_all_notes e skip limit domain note_type s = Inl DBAPIError"
    by (simp add: g offset_limit_def)
  have st: "\<forall>t. filter (\<lambda>n. n_created_at n = t) ?all
                   = filter (\<lambda>n. n_created_at n = t) (filter ?P (tbl_notes s))"
    by (simp only: order_by_desc_stable) simp
  from b c ov st order_by_desc_mset [of n_created_at "filter ?P (tbl_notes s)"]
    order_by_desc_sorted [of n_created_at "filter ?P (tbl_notes s)"]
  show ?thesis by blast
qed

theorem get_all_notes_pagination_witness:
  "(0::int) \<le> 1 \<and> (1::int) < 2 ^ 63
   \<and> get_all_notes RejectsNegative 1 1 None None store_xy = Inr [note_x]"
proof -
  have h: "(0::int) \<le> 1 \<and> (1::int) < 2 ^ 63 \<and> (0::int) \<le> 1 \<and> (1::int) < 2 ^ 63" by simp
  from get_all_notes_pagination [of RejectsNegative 1 1 None None store_xy, THEN conjunct2,
      THEN conjunct2, THEN mp, OF h]
  obtain all where
    m: "mset all = mset (filter (\<lambda>n. ((None :: Domain option) = None \<or> None = Some (n_domain n))
                             \<and> ((None :: NoteType option) = None \<or> None = Some (n_note_type n)))
                          (tbl_notes store_xy))"
    and srt: "sorted_wrt (\<lambda>a b. n_created_at b \<le> n_created_at a) all"
    and b: "get_all_notes RejectsNegative 1 1 None None store_xy
          = Inr (take (nat 1) (drop (nat 1) all))"
    by blast
  from m have m': "mset all = {#note_x, note_y#}" by (simp add: store_xy_def)
  then have "size (mset all) = 2" by simp
  then have "length all = 2" by simp
  then obtain p q where pq: "all = [p, q]"
    by (metis (no_types) Suc_length_conv length_0_conv numeral_2_eq_2)
  from m' pq have "(p = note_x \<and> q = note_y) \<or> (p = note_y \<and> q = note_x)"
    by (auto simp: add_eq_conv_ex)
  moreover have "\<not> (n_created_at note_y \<le> n_created_at note_x)"
    by (simp add: note_x_def note_y_def)
  ultimately have "all = [note_y, note_x]" using srt pq by auto
  with b h show ?thesis by simp
qed

text \<open>
  C9. On a list whose second entry is a string instead of a note object,
  \<^verbatim>\<open>_build_graph_from_notes\<close> raises \<^verbatim>\<open>AttributeError\<close> and returns no graph: the
  entry is not skipped.
\<close>

theorem build_graph_raises_on_non_object:
  "build_graph_from_notes [JObj [(''id'', JStr ''a'')], JStr ''x'']
     = Inl (AttributeError ''get'')"
  by (simp add: build_graph_from_notes_def dict_get_def)

text \<open>
  C10. On a collection whose entries all are note objects, the source of every edge of
  the result is the identifier of one of its nodes; and every entry with a non-empty
  string identifier, the first with that identifier or a later one, contributes an edge
  for each string under its \<^verbatim>\<open>links\<close>: the number of edges is the sum, over all
  entries, of the numbers of edges they declare.
\<close>

theorem build_graph_edge_sources:
  "(\<forall>j\<in>set coll. \<exists>d. j = JObj d) \<longrightarrow>
     (\<exists>g. build_graph_from_notes coll = Inr g
        \<and> (\<forall>e\<in>set (g_edges g). e_source e \<in> set (map nd_id (g_nodes g)))
        \<and> (\<forall>d i ls t. JObj d \<in> set coll \<and> map_of d ''id'' = Some (JStr i) \<and> i \<noteq> []
                \<and> map_of d ''links'' = Some (JArr ls) \<and> JStr t \<in> set ls
              \<longrightarrow> \<lparr>e_source = JStr i, e_target = JStr t\<rparr> \<in> set (g_edges g))
        \<and> length (g_edges g) = sum_list (map (\<lambda>j. length (declared_edges j)) coll))"
proof
  assume a: "\<forall>j\<in>set coll. \<exists>d. j = JObj d"
  from build_graph_spec [OF a] obtain r where
    g: "build_graph_from_notes coll
          = Inr \<lparr>g_nodes = r, g_edges = concat (map declared_edges coll)\<rparr>"
    and c: "\<forall>d i. JObj d \<in> set coll \<and> map_of d ''id'' = Some (JStr i) \<and> i \<noteq> []
                  \<longrightarrow> JStr i \<in> set (map nd_id r)"
    by blast
  have s: "\<forall>e\<in>set (concat (map declared_edges coll)). e_source e \<in> set (map nd_id r)"
  proof
    fix e assume "e \<in> set (concat (map declared_edges coll))"
    then obtain j where j: "j \<in> set coll" "e \<in> set (declared_edges j)" by auto
    from declared_edges_source [OF j(2)] obtain d i where
      "j = JObj d" "map_of d ''id'' = Some (JStr i)" "i \<noteq> []" "e_source e = JStr i"
      by blast
    with j(1) c show "e_source e \<in> set (map nd_id r)" by metis
  qed
  have m: "\<forall>d i ls t. JObj d \<in> set coll \<and> map_of d ''id'' = Some (JStr i) \<and> i \<noteq> []
                \<and> map_of d ''links'' = Some (JArr ls) \<and> JStr t \<in> set ls
              \<longrightarrow> \<lparr>e_source = JStr i, e_target = JStr t\<rparr>
                    \<in> set (concat (map declared_edges coll))"
  proof (intro allI impI)
    fix d i ls t
    assume h: "JObj d \<in> set coll \<and> map_of d ''id'' = Some (JStr i) \<and> i \<noteq> []
                \<and> map_of d ''links'' = Some (JArr ls) \<and> JStr t \<in> set ls"
    then have "\<lparr>e_source = JStr i, e_target = JStr t\<rparr> \<in> set (declared_edges (JObj d))"
      using declared_edges_mem by blast
    moreover from h have "JObj d \<in> set coll" by blast
    ultimately show "\<lparr>e_source = JStr i, e_target = JStr t\<rparr>
                    \<in> set (concat (map declared_edges coll))"
      unfolding set_concat set_map by blast
  qed
  have l: "length (concat (map declared_edges coll))
             = sum_list (map (\<lambda>j. length (declared_edges j)) coll)"
    by (simp add: length_concat comp_def)
  from g s m l show "\<exists>g. build_graph_from_notes coll = Inr g
        \<and> (\<forall>e\<in>set (g_edges g). e_source e \<in> set (map nd_id (g_nodes g)))
        \<and> (\<forall>d i ls t. JObj d \<in> set coll \<and> map_of d ''id'' = Some (JStr i) \<and> i \<noteq> []
                \<and> map_of d ''links'' = Some (JArr ls) \<and> JStr t \<in> set ls
              \<longrightarrow> \<lparr>e_source = JStr i, e_target = JStr t\<rparr> \<in> set (g_edges g))
        \<and> length (g_edges g) = sum_list (map (\<lambda>j. length (declared_edges j)) coll)"
    by simp
qed

theorem build_graph_edge_sources_witness:
  "\<exists>g. build_graph_from_notes duplicate_notes = Inr g
      \<and> \<lparr>e_source = JStr ''a'', e_target = JStr ''c''\<rparr> \<in> set (g_edges g)
      \<and> length (g_edges g) = 2"
proof -
  have h: "\<forall>j\<in>set duplicate_notes. \<exists>d. j = JObj d"
    by (simp add: duplicate_notes_def)
  from build_graph_edge_sources [of duplicate_notes, THEN mp, OF h]
  obtain g where g: "build_graph_from_notes duplicate_notes = Inr g"
    and m: "\<forall>d i ls t. JObj d \<in> set duplicate_notes \<and> map_of d ''id'' = Some (JStr i)
                \<and> i \<noteq> [] \<and> map_of d ''links'' = Some (JArr ls) \<and> JStr t \<in> set ls
              \<longrightarrow> \<lparr>e_source = JStr i, e_target = JStr t\<rparr> \<in> set (g_edges g)"
    and l: "length (g_edges g)
              = sum_list (map (\<lambda>j. length (declared_edges j)) duplicate_notes)"
    by blast
  have "JObj [(''id'', JStr ''a''), (''links'', JArr [JStr ''c'', JNum 5])]
          \<in> set duplicate_notes
        \<and> map_of [(''id'', JStr ''a''), (''links'', JArr [JStr ''c'', JNum 5])] ''id''
            = Some (JStr ''a'')
        \<and> ''a'' \<noteq> []
        \<and> map_of [(''id'', JStr ''a''), (''links'', JArr [JStr ''c'', JNum 5])] ''links''
            = Some (JArr [JStr ''c'', JNum 5])
        \<and> JStr ''c'' \<in> set [JStr ''c'', JNum 5]"
    by (simp add: duplicate_notes_def)
  with m have "\<lparr>e_source = JStr ''a'', e_target = JStr ''c''\<rparr> \<in> set (g_edges g)"
    by blast
  moreover have "length (g_edges g) = 2"
    using l by (simp add: duplicate_notes_def)
  ultimately show ?thesis using g by blast
qed

end
